theory Spec2Isabelle
  imports Main
begin

section \<open>Text generation strategies: data model\<close>

text \<open>
  Shallow embedding of \<^verbatim>\<open>nemo/collections/nlp/modules/common/text_generation_strategy.py\<close>.
  Python integers are \<^typ>\<open>int\<close>, strings are \<^typ>\<open>string\<close>, every exception the code can
  raise is a value of \<open>error\<close>, and a function that can raise returns \<open>error + 'a\<close>.
\<close>

datatype error =
    IndexError
  | KeyError string
  | TypeError
  | RuntimeError
  | AttributeError string
  | AssertionError
  | ValueError string

text \<open>The text representation of \<open>eos_id\<close> (\<^verbatim>\<open>END_OF_SEQ\<close>).\<close>

definition END_OF_SEQ :: string where
  "END_OF_SEQ = ''<|endoftext|>''"

text \<open>
  The tokenizer is an external collaborator: an object with an identity (compared with
  \<^verbatim>\<open>is\<close>), the conversions between text and token ids, and its special ids.
\<close>

record tokenizer =
  tok_ident :: nat
  text_to_ids :: "string \<Rightarrow> int list"
  ids_to_text :: "int list \<Rightarrow> string"
  tokenize :: "string \<Rightarrow> int list"
  bos_id :: int
  eos_id :: int
  unk_id :: int

text \<open>
  The configuration bag \<^verbatim>\<open>model.cfg\<close>. A key read with \<^verbatim>\<open>cfg.get(key, default)\<close> is an
  option: \<open>None\<close> when the key is unset.
\<close>

record cfg =
  encoder_seq_length :: int
  hidden_size :: int
  position_embedding_type :: "string option"

text \<open>
  The model object: \<open>frozen_model_cfg\<close> is \<^verbatim>\<open>model.frozen_model.cfg\<close> of a prompt-learning
  model, \<open>pseudo_token_ids_start\<close> is \<open>None\<close> when it is not configured.
\<close>

record model =
  model_cfg :: cfg
  frozen_model_cfg :: cfg
  model_tokenizer :: tokenizer
  pseudo_token_ids_start :: "int option"

text \<open>The four strategy classes of the module.\<close>

datatype variant = GPT | Neva | PromptLearning | Retro

section \<open>clip\_max\_len\<close>

text \<open>\<^verbatim>\<open>cfg.get("position_embedding_type", "learned_absolute")\<close>\<close>

definition get_position_embedding_type :: "cfg \<Rightarrow> string" where
  "get_position_embedding_type c =
     (case position_embedding_type c of None \<Rightarrow> ''learned_absolute'' | Some t \<Rightarrow> t)"

definition gpt_clip_max_len :: "model \<Rightarrow> int \<Rightarrow> int" where
  "gpt_clip_max_len m maxlen =
     (if get_position_embedding_type (model_cfg m) = ''learned_absolute''
      then (if maxlen > encoder_seq_length (model_cfg m) + 1
            then encoder_seq_length (model_cfg m) + 1 else maxlen)
      else maxlen)"

definition neva_clip_max_len :: "model \<Rightarrow> int \<Rightarrow> int" where
  "neva_clip_max_len m maxlen =
     (if maxlen > encoder_seq_length (model_cfg m) + 1
      then encoder_seq_length (model_cfg m) + 1 else maxlen)"

definition prompt_clip_max_len :: "model \<Rightarrow> int \<Rightarrow> int" where
  "prompt_clip_max_len m maxlen =
     (if maxlen > encoder_seq_length (frozen_model_cfg m) + 1
      then encoder_seq_length (frozen_model_cfg m) + 1 else maxlen)"

definition retro_clip_max_len :: "model \<Rightarrow> int \<Rightarrow> int" where
  "retro_clip_max_len m maxlen =
     (if get_position_embedding_type (model_cfg m) = ''learned_absolute''
      then (if maxlen > encoder_seq_length (model_cfg m) + 1
            then encoder_seq_length (model_cfg m) + 1 else maxlen)
      else maxlen)"

text \<open>Method dispatch on the strategy class.\<close>

fun clip_max_len :: "variant \<Rightarrow> model \<Rightarrow> int \<Rightarrow> int" where
  "clip_max_len GPT m maxlen = gpt_clip_max_len m maxlen"
| "clip_max_len Neva m maxlen = neva_clip_max_len m maxlen"
| "clip_max_len PromptLearning m maxlen = prompt_clip_max_len m maxlen"
| "clip_max_len Retro m maxlen = retro_clip_max_len m maxlen"

section \<open>Tensors and Python slicing\<close>

text \<open>
  A two-dimensional integer tensor of shape \<open>[length rows, ncols]\<close>. The width is kept
  apart from the rows, since a tensor with no rows still has a width.
\<close>

record tensor2 =
  ncols :: nat
  rows :: "int list list"

text \<open>
  Python clamps a slice bound to the sequence: \<open>py_bound i n\<close> is the position that the
  bound \<open>i\<close> denotes in a sequence of length \<open>n\<close> (a negative bound counts from the end).
\<close>

definition py_bound :: "int \<Rightarrow> nat \<Rightarrow> nat" where
  "py_bound i n = (if i < 0 then nat (int n + i) else min (nat i) n)"

text \<open>\<^verbatim>\<open>xs[a:b]\<close> and \<^verbatim>\<open>xs[:b]\<close>\<close>

definition py_slice :: "int \<Rightarrow> int \<Rightarrow> 'a list \<Rightarrow> 'a list" where
  "py_slice a b xs =
     take (py_bound b (length xs) - py_bound a (length xs)) (drop (py_bound a (length xs)) xs)"

definition py_slice_to :: "int \<Rightarrow> 'a list \<Rightarrow> 'a list" where
  "py_slice_to b xs = take (py_bound b (length xs)) xs"

text \<open>\<^verbatim>\<open>t[:, :c]\<close>\<close>

definition slice_cols :: "tensor2 \<Rightarrow> int \<Rightarrow> tensor2" where
  "slice_cols t c =
     \<lparr>ncols = py_bound c (ncols t), rows = map (take (py_bound c (ncols t))) (rows t)\<rparr>"

text \<open>\<^verbatim>\<open>t[:, j]\<close>: a one-dimensional tensor, or IndexError when \<open>j\<close> is out of range.\<close>

definition select_col :: "tensor2 \<Rightarrow> int \<Rightarrow> error + int list" where
  "select_col t j =
     (let w = int (ncols t); k = (if j < 0 then j + w else j)
      in if 0 \<le> k \<and> k < w then Inr (map (\<lambda>r. r ! nat k) (rows t)) else Inl IndexError)"

text \<open>
  \<^verbatim>\<open>x.view(m, -1)\<close> of a one-dimensional tensor: the second dimension is inferred, and
  torch raises a RuntimeError when \<open>m\<close> is not positive or does not divide the size.
\<close>

definition view_rows :: "int list \<Rightarrow> int \<Rightarrow> error + tensor2" where
  "view_rows xs m =
     (if m \<le> 0 then Inl RuntimeError
      else if int (length xs) mod m \<noteq> 0 then Inl RuntimeError
      else (let k = length xs div nat m
            in Inr \<lparr>ncols = k, rows = map (\<lambda>i. take k (drop (i * k) xs)) [0..<nat m]\<rparr>))"

section \<open>prepare\_batch\_at\_step\<close>

text \<open>
  The entries of the batch handed to the forward pass. The attention mask is a list of
  slices along its first dimension, of a type \<open>'m\<close> left open; \<open>Ext\<close> is a tensor whose
  content the module never reads (media, task ids, neighbour tensors); \<open>PyNone\<close> is \<^verbatim>\<open>None\<close>.
\<close>

datatype ('m, 'x) item =
    Tensor2 tensor2
  | MaskT "'m list"
  | BoolT "bool list"
  | IntT "int list"
  | Ext 'x
  | PyNone

text \<open>
  The attributes of a strategy object that \<^verbatim>\<open>init_batch\<close> has stored and
  \<^verbatim>\<open>prepare_batch_at_step\<close> reads; \<open>attention_mask\<close> is \<open>None\<close> when it was not computed.
\<close>

record ('m, 'x) strategy =
  position_ids :: tensor2
  attention_mask :: "'m list option"
  task_ids :: "('m, 'x) item"
  neighbor_attention_mask :: "('m, 'x) item"
  neighbor_position_ids :: "('m, 'x) item"

text \<open>
  The \<^verbatim>\<open>if step == 0: ... else: ...\<close> block, the same text in the four classes: the flag
  \<^verbatim>\<open>set_inference_key_value_memory\<close>, \<^verbatim>\<open>tokens2use\<close> and \<^verbatim>\<open>positions2use\<close>.
\<close>

definition select_step_inputs ::
  "tensor2 \<Rightarrow> tensor2 \<Rightarrow> int \<Rightarrow> int \<Rightarrow> int \<Rightarrow> error + (bool \<times> tensor2 \<times> tensor2)" where
  "select_step_inputs tokens pos micro_batch_size step context_length =
     (if step = 0
      then Inr (True, slice_cols tokens context_length, slice_cols pos context_length)
      else (case select_col tokens (context_length - 1) of
              Inl e \<Rightarrow> Inl e
            | Inr tcol \<Rightarrow>
          (case view_rows tcol micro_batch_size of
              Inl e \<Rightarrow> Inl e
            | Inr tokens2use \<Rightarrow>
          (case select_col pos (context_length - 1) of
              Inl e \<Rightarrow> Inl e
            | Inr pcol \<Rightarrow>
          (case view_rows pcol micro_batch_size of
              Inl e \<Rightarrow> Inl e
            | Inr positions2use \<Rightarrow> Inr (False, tokens2use, positions2use))))))"

text \<open>
  \<^verbatim>\<open>torch.concat([self.attention_mask for _ in range(micro_batch_size)])\<close> when
  \<^verbatim>\<open>compute_attention_mask\<close> holds, \<^verbatim>\<open>None\<close> otherwise. torch refuses an empty list
  (RuntimeError) and a list of \<^verbatim>\<open>None\<close> (TypeError).
\<close>

definition repeat_attention_mask :: "'m list option \<Rightarrow> int \<Rightarrow> bool \<Rightarrow> error + ('m, 'x) item" where
  "repeat_attention_mask amask micro_batch_size compute_attention_mask =
     (if compute_attention_mask
      then (if micro_batch_size \<le> 0 then Inl RuntimeError
            else (case amask of
                    None \<Rightarrow> Inl TypeError
                  | Some a \<Rightarrow> Inr (MaskT (concat (replicate (nat micro_batch_size) a)))))
      else Inr PyNone)"

definition gpt_prepare_batch_at_step ::
  "('m, 'x) strategy \<Rightarrow> model \<Rightarrow> tensor2 \<Rightarrow> int \<Rightarrow> int \<Rightarrow> int \<Rightarrow> int \<Rightarrow> bool
     \<Rightarrow> error + (('m, 'x) item list \<times> int list)" where
  "gpt_prepare_batch_at_step s m tokens maxlen micro_batch_size step context_length
       compute_attention_mask =
     (case select_step_inputs tokens (position_ids s) micro_batch_size step context_length of
        Inl e \<Rightarrow> Inl e
      | Inr (set_inference_key_value_memory, tokens2use, positions2use) \<Rightarrow>
     (case repeat_attention_mask (attention_mask s) micro_batch_size compute_attention_mask of
        Inl e \<Rightarrow> Inl e
      | Inr attention_mask_repeat \<Rightarrow>
          Inr ([Tensor2 tokens2use, attention_mask_repeat, Tensor2 positions2use,
                BoolT (replicate (nat micro_batch_size) set_inference_key_value_memory),
                IntT (replicate (nat micro_batch_size) maxlen)],
               [int (ncols tokens2use), micro_batch_size, hidden_size (model_cfg m)])))"

definition neva_prepare_batch_at_step ::
  "('m, 'x) strategy \<Rightarrow> model \<Rightarrow> tensor2 \<Rightarrow> int \<Rightarrow> int \<Rightarrow> int \<Rightarrow> int \<Rightarrow> bool
     \<Rightarrow> ('m, 'x) item \<Rightarrow> error + (('m, 'x) item list \<times> int list)" where
  "neva_prepare_batch_at_step s m tokens maxlen micro_batch_size step context_length
       compute_attention_mask media =
     (case select_step_inputs tokens (position_ids s) micro_batch_size step context_length of
        Inl e \<Rightarrow> Inl e
      | Inr (set_inference_key_value_memory, tokens2use, positions2use) \<Rightarrow>
     (case repeat_attention_mask (attention_mask s) micro_batch_size compute_attention_mask of
        Inl e \<Rightarrow> Inl e
      | Inr attention_mask_repeat \<Rightarrow>
          Inr ([Tensor2 tokens2use, attention_mask_repeat, Tensor2 positions2use, media,
                BoolT (replicate (nat micro_batch_size) set_inference_key_value_memory),
                IntT (replicate (nat micro_batch_size) maxlen)],
               [int (ncols tokens2use), micro_batch_size, hidden_size (model_cfg m)])))"

definition prompt_prepare_batch_at_step ::
  "('m, 'x) strategy \<Rightarrow> model \<Rightarrow> tensor2 \<Rightarrow> int \<Rightarrow> int \<Rightarrow> int \<Rightarrow> int \<Rightarrow> bool
     \<Rightarrow> error + (('m, 'x) item list \<times> int list)" where
  "prompt_prepare_batch_at_step s m tokens maxlen micro_batch_size step context_length
       compute_attention_mask =
     (case select_step_inputs tokens (position_ids s) micro_batch_size step context_length of
        Inl e \<Rightarrow> Inl e
      | Inr (set_inference_key_value_memory, tokens2use, positions2use) \<Rightarrow>
     (case repeat_attention_mask (attention_mask s) micro_batch_size compute_attention_mask of
        Inl e \<Rightarrow> Inl e
      | Inr attention_mask_repeat \<Rightarrow>
          Inr ([Tensor2 tokens2use, attention_mask_repeat, Tensor2 positions2use, task_ids s,
                BoolT (replicate (nat micro_batch_size) set_inference_key_value_memory),
                IntT (replicate (nat micro_batch_size) maxlen)],
               [int (ncols tokens2use), micro_batch_size, hidden_size (frozen_model_cfg m)])))"

text \<open>
  The retrieval strategy takes its neighbour tokens from the keyword arguments
  \<^verbatim>\<open>**extra\<close>, a dictionary; a missing key raises KeyError when the batch list is built.
\<close>

definition retro_prepare_batch_at_step ::
  "('m, 'x) strategy \<Rightarrow> model \<Rightarrow> tensor2 \<Rightarrow> int \<Rightarrow> int \<Rightarrow> int \<Rightarrow> int \<Rightarrow> bool
     \<Rightarrow> (string \<rightharpoonup> ('m, 'x) item) \<Rightarrow> error + (('m, 'x) item list \<times> int list)" where
  "retro_prepare_batch_at_step s m tokens maxlen micro_batch_size step context_length
       compute_attention_mask extra =
     (case select_step_inputs tokens (position_ids s) micro_batch_size step context_length of
        Inl e \<Rightarrow> Inl e
      | Inr (set_inference_key_value_memory, tokens2use, positions2use) \<Rightarrow>
     (case repeat_attention_mask (attention_mask s) micro_batch_size compute_attention_mask of
        Inl e \<Rightarrow> Inl e
      | Inr attention_mask_repeat \<Rightarrow>
     (case extra ''neighbors_tokens'' of
        None \<Rightarrow> Inl (KeyError ''neighbors_tokens'')
      | Some neighbors_tokens \<Rightarrow>
          Inr ([Tensor2 tokens2use, attention_mask_repeat, Tensor2 positions2use,
                neighbors_tokens, neighbor_attention_mask s, neighbor_position_ids s,
                BoolT (replicate (nat micro_batch_size) set_inference_key_value_memory),
                IntT (replicate (nat micro_batch_size) maxlen)],
               [int (ncols tokens2use), micro_batch_size, hidden_size (model_cfg m)]))))"

text \<open>
  Method dispatch on the strategy class. \<open>media\<close> is the keyword argument of the Neva
  method, \<open>extra\<close> the keyword dictionary of the retrieval method.
\<close>

fun prepare_batch_at_step ::
  "variant \<Rightarrow> ('m, 'x) strategy \<Rightarrow> model \<Rightarrow> tensor2 \<Rightarrow> int \<Rightarrow> int \<Rightarrow> int \<Rightarrow> int \<Rightarrow> bool
     \<Rightarrow> ('m, 'x) item \<Rightarrow> (string \<rightharpoonup> ('m, 'x) item)
     \<Rightarrow> error + (('m, 'x) item list \<times> int list)" where
  "prepare_batch_at_step GPT s m tokens maxlen mbs step c cam media extra =
     gpt_prepare_batch_at_step s m tokens maxlen mbs step c cam"
| "prepare_batch_at_step Neva s m tokens maxlen mbs step c cam media extra =
     neva_prepare_batch_at_step s m tokens maxlen mbs step c cam media"
| "prepare_batch_at_step PromptLearning s m tokens maxlen mbs step c cam media extra =
     prompt_prepare_batch_at_step s m tokens maxlen mbs step c cam"
| "prepare_batch_at_step Retro s m tokens maxlen mbs step c cam media extra =
     retro_prepare_batch_at_step s m tokens maxlen mbs step c cam extra"

text \<open>Where the flag array \<^verbatim>\<open>setkey_value_array\<close> sits in the batch list of each class.\<close>

fun setkey_index :: "variant \<Rightarrow> nat" where
  "setkey_index GPT = 3"
| "setkey_index Neva = 4"
| "setkey_index PromptLearning = 4"
| "setkey_index Retro = 6"

section \<open>post\_process\<close>

text \<open>
  The prompt-learning strategy overwrites, in place, the entries of \<^verbatim>\<open>new_tokens\<close> and of
  \<^verbatim>\<open>tokens[:, :context_length]\<close> selected by the mask \<^verbatim>\<open>>= pseudo_token_ids_start\<close>.
  The model returns the two tensors after the call.
\<close>

definition prompt_post_process :: "model \<Rightarrow> tensor2 \<Rightarrow> int list \<Rightarrow> int \<Rightarrow> tensor2 \<times> int list" where
  "prompt_post_process m tokens new_tokens context_length =
     (case pseudo_token_ids_start m of
        None \<Rightarrow> (tokens, new_tokens)
      | Some start \<Rightarrow>
          (let unk = unk_id (model_tokenizer m);
               new_tokens' = map (\<lambda>t. if t \<ge> start then unk else t) new_tokens;
               k = py_bound context_length (ncols tokens);
               tokens' = tokens\<lparr>rows :=
                  map (\<lambda>r. map (\<lambda>t. if t \<ge> start then unk else t) (take k r) @ drop k r)
                      (rows tokens)\<rparr>
           in (tokens', new_tokens')))"

text \<open>
  The other classes inherit the abstract method of the base class, whose body is
  \<^verbatim>\<open>pass\<close>.
\<close>

definition base_post_process :: "model \<Rightarrow> tensor2 \<Rightarrow> int list \<Rightarrow> int \<Rightarrow> tensor2 \<times> int list" where
  "base_post_process m tokens new_tokens context_length = (tokens, new_tokens)"

fun post_process :: "variant \<Rightarrow> model \<Rightarrow> tensor2 \<Rightarrow> int list \<Rightarrow> int \<Rightarrow> tensor2 \<times> int list" where
  "post_process PromptLearning m tokens new_tokens c = prompt_post_process m tokens new_tokens c"
| "post_process GPT m tokens new_tokens c = base_post_process m tokens new_tokens c"
| "post_process Neva m tokens new_tokens c = base_post_process m tokens new_tokens c"
| "post_process Retro m tokens new_tokens c = base_post_process m tokens new_tokens c"


section \<open>End of generation\<close>

text \<open>
  The cache \<^verbatim>\<open>self._end_of_generation_cache\<close>: the identity of the tokenizer it was built
  for, the end strings known to be one token, and the end strings known to need a string
  comparison.
\<close>

record eog_cache =
  cache_tokenizer :: nat
  end_string_to_token :: "string \<rightharpoonup> int"
  cache_end_strings_to_check :: "string set"

text \<open>
  What the functions do besides returning: the calls they make to the tokenizer, in order,
  and the warnings they issue (one per end string without a special token).
\<close>

datatype tok_call = TextToIds string | IdsToText "int list"

datatype warning = NoSpecialToken string

record gen_state =
  end_of_generation_cache :: "eog_cache option"
  tokenizer_calls :: "tok_call list"
  warnings :: "warning list"

text \<open>
  The variables of the loop over \<^verbatim>\<open>end_strings\<close>: the cache (the dictionary
  \<^verbatim>\<open>end_string_to_token\<close> is the cache's own), the effects so far, \<^verbatim>\<open>end_tokens\<close> and
  \<^verbatim>\<open>end_strings_to_check\<close>.
\<close>

record resolve_state =
  rs_cache :: eog_cache
  rs_calls :: "tok_call list"
  rs_warnings :: "warning list"
  end_tokens :: "int set"
  end_strings_to_check :: "string list"

text \<open>
  The test \<^verbatim>\<open>len(ids_with_end_string) == len(ids_ref) + 1 and ids_with_end_string[:-1] == ids_ref\<close>;
  \<^verbatim>\<open>xs[:-1]\<close> is \<open>butlast xs\<close>.
\<close>

definition one_extra_token :: "int list \<Rightarrow> int list \<Rightarrow> bool" where
  "one_extra_token ids_ref ids_with_end_string =
     (length ids_with_end_string = length ids_ref + 1 \<and> butlast ids_with_end_string = ids_ref)"

text \<open>
  One iteration of the loop. \<^verbatim>\<open>ids_with_end_string[-1]\<close> is \<open>last\<close>, read only when the
  list is not empty.
\<close>

definition resolve_end_string :: "tokenizer \<Rightarrow> string \<Rightarrow> resolve_state \<Rightarrow> resolve_state" where
  "resolve_end_string tok end_string st =
     (case end_string_to_token (rs_cache st) end_string of
        Some t \<Rightarrow> st\<lparr>end_tokens := insert t (end_tokens st)\<rparr>
      | None \<Rightarrow>
          if end_string \<in> cache_end_strings_to_check (rs_cache st)
          then st\<lparr>end_strings_to_check := end_strings_to_check st @ [end_string]\<rparr>
          else
            (let ids_ref = text_to_ids tok ''<extra_id_1>'';
                 ids_with_end_string = text_to_ids tok (''<extra_id_1>'' @ end_string);
                 calls = rs_calls st
                   @ [TextToIds ''<extra_id_1>'', TextToIds (''<extra_id_1>'' @ end_string)]
             in if one_extra_token ids_ref ids_with_end_string
                then st\<lparr>rs_cache := (rs_cache st)\<lparr>end_string_to_token :=
                            (end_string_to_token (rs_cache st))
                              (end_string \<mapsto> last ids_with_end_string)\<rparr>,
                        rs_calls := calls,
                        end_tokens := insert (last ids_with_end_string) (end_tokens st)\<rparr>
                else st\<lparr>rs_cache := (rs_cache st)\<lparr>cache_end_strings_to_check :=
                            insert end_string (cache_end_strings_to_check (rs_cache st))\<rparr>,
                        rs_calls := calls,
                        rs_warnings := rs_warnings st @ [NoSpecialToken end_string],
                        end_strings_to_check := end_strings_to_check st @ [end_string]\<rparr>))"

text \<open>The cache that replaces an invalid one.\<close>

definition fresh_cache :: "tokenizer \<Rightarrow> int \<Rightarrow> eog_cache" where
  "fresh_cache tok eod_id =
     \<lparr>cache_tokenizer = tok_ident tok,
      end_string_to_token = [END_OF_SEQ \<mapsto> eod_id],
      cache_end_strings_to_check = {}\<rparr>"

text \<open>
  \<^verbatim>\<open>_get_end_of_generation_tokens_and_strings\<close>; \<open>tok\<close> is \<^verbatim>\<open>self.model.tokenizer\<close> at the
  time of the call.
\<close>

definition get_end_of_generation_tokens_and_strings ::
  "tokenizer \<Rightarrow> gen_state \<Rightarrow> int \<Rightarrow> string list \<Rightarrow> (int set \<times> string list) \<times> gen_state" where
  "get_end_of_generation_tokens_and_strings tok st eod_id end_strings =
     (let cache =
            (case end_of_generation_cache st of
               None \<Rightarrow> fresh_cache tok eod_id
             | Some c \<Rightarrow> if cache_tokenizer c \<noteq> tok_ident tok then fresh_cache tok eod_id else c);
          final = fold (resolve_end_string tok) end_strings
                    \<lparr>rs_cache = cache, rs_calls = tokenizer_calls st,
                     rs_warnings = warnings st, end_tokens = {eod_id},
                     end_strings_to_check = []\<rparr>
      in ((end_tokens final, end_strings_to_check final),
          \<lparr>end_of_generation_cache = Some (rs_cache final),
           tokenizer_calls = rs_calls final,
           warnings = rs_warnings final\<rparr>))"

text \<open>\<^verbatim>\<open>text.endswith(end_string)\<close>\<close>

definition endswith :: "string \<Rightarrow> string \<Rightarrow> bool" where
  "endswith text end_string =
     (length end_string \<le> length text
      \<and> drop (length text - length end_string) text = end_string)"

text \<open>
  The loop \<^verbatim>\<open>for idx, token_seq in enumerate(tokens)\<close>: each row is decoded, then
  \<^verbatim>\<open>is_end[idx]\<close> is read (IndexError when there is no such entry) and updated.
\<close>

fun check_end_strings ::
  "tokenizer \<Rightarrow> string list \<Rightarrow> nat \<Rightarrow> int list list \<Rightarrow> bool list \<Rightarrow> tok_call list
     \<Rightarrow> error + (bool list \<times> tok_call list)" where
  "check_end_strings tok strings idx [] is_end calls = Inr (is_end, calls)"
| "check_end_strings tok strings idx (token_seq # rest) is_end calls =
     (let text = ids_to_text tok token_seq;
          calls' = calls @ [IdsToText token_seq]
      in if idx < length is_end
         then check_end_strings tok strings (Suc idx) rest
                (is_end[idx := is_end ! idx \<or> list_ex (endswith text) strings]) calls'
         else Inl IndexError)"

text \<open>
  \<^verbatim>\<open>end_of_generation_condition\<close>; \<open>prev\<close> is the one-dimensional tensor of the previous
  tokens, the result a boolean tensor of the same length.
\<close>

definition end_of_generation_condition ::
  "tokenizer \<Rightarrow> gen_state \<Rightarrow> tensor2 \<Rightarrow> int list \<Rightarrow> int \<Rightarrow> string list
     \<Rightarrow> error + (bool list \<times> gen_state)" where
  "end_of_generation_condition tok st tokens prev eod_id end_strings =
     (if (length end_strings = 1 \<and> end_strings ! 0 = END_OF_SEQ) \<or> end_strings = []
      then Inr (map (\<lambda>p. p = eod_id) prev, st)
      else
        (case get_end_of_generation_tokens_and_strings tok st eod_id end_strings of
           ((toks, strings), st') \<Rightarrow>
             if toks = {} then Inl AssertionError
             else
               (let is_end = map (\<lambda>p. p \<in> toks) prev
                in if strings \<noteq> []
                   then (case check_end_strings tok strings 0 (rows tokens) is_end
                                 (tokenizer_calls st') of
                           Inl e \<Rightarrow> Inl e
                         | Inr (is_end', calls) \<Rightarrow> Inr (is_end', st'\<lparr>tokenizer_calls := calls\<rparr>))
                   else Inr (is_end, st'))))"

text \<open>
  The end strings a cache has resolved: those with a token and those known to need a
  string comparison.
\<close>

definition resolved_strings :: "eog_cache \<Rightarrow> string set" where
  "resolved_strings c = dom (end_string_to_token c) \<union> cache_end_strings_to_check c"

section \<open>Retrieval neighbours\<close>

text \<open>The dictionary \<^verbatim>\<open>retro_args\<close>, with the four keys the method reads.\<close>

record retro_args =
  retro_gpt_retrieved_length :: int
  retro_num_neighbors :: int
  ft_neighbours :: int
  reuse_top :: bool

text \<open>The body of the padding loop, for one neighbour.\<close>

definition pad_neighbour :: "tokenizer \<Rightarrow> int \<Rightarrow> int list \<Rightarrow> int list" where
  "pad_neighbour tok r neighbour_tokens =
     (if int (length neighbour_tokens) \<ge> r then py_slice_to r neighbour_tokens
      else neighbour_tokens @ replicate (nat (r - int (length neighbour_tokens))) (eos_id tok))"

text \<open>
  \<^verbatim>\<open>assert e\<close> raises AssertionError when \<open>e\<close> is false. An exception object defines
  neither \<^verbatim>\<open>__bool__\<close> nor \<^verbatim>\<open>__len__\<close>, so as a condition it is true.
\<close>

definition py_assert :: "bool \<Rightarrow> error + unit" where
  "py_assert b = (if b then Inr () else Inl AssertionError)"

definition exception_truth_value :: "error \<Rightarrow> bool" where
  "exception_truth_value e = True"

text \<open>
  \<^verbatim>\<open>torch.cuda.LongTensor(rows)\<close> of a list of lists, read back as its rows: torch raises
  a ValueError when the rows differ in length.
\<close>

definition long_tensor :: "int list list \<Rightarrow> error + int list list" where
  "long_tensor rws =
     (if list_all (\<lambda>r. length r = length (hd rws)) rws then Inr rws
      else Inl (ValueError ''expected sequence of equal lengths''))"

definition tokenize_neighbors_batch ::
  "tokenizer \<Rightarrow> string list \<Rightarrow> retro_args \<Rightarrow> error + int list list" where
  "tokenize_neighbors_batch tok neighbors ra =
     (let r = retro_gpt_retrieved_length ra;
          num = retro_num_neighbors ra;
          ft = ft_neighbours ra;
          neighbors_tokens = map (tokenize tok) neighbors;
          valid_neighbours_tokens =
            (if reuse_top ra then py_slice_to num neighbors_tokens
             else py_slice ft (num + ft) neighbors_tokens);
          padded_valid_neighbours_tokens = map (pad_neighbour tok r) valid_neighbours_tokens
      in case (if int (length padded_valid_neighbours_tokens) < num
               then py_assert (exception_truth_value (ValueError
                      ''neighbours are not enough, add empty ones and create mask for those empty ones''))
               else Inr ()) of
           Inl e \<Rightarrow> Inl e
         | Inr u \<Rightarrow> long_tensor padded_valid_neighbours_tokens)"

section \<open>The strategy dispatcher\<close>

text \<open>
  The model classes are imported from modules outside this file, so the dispatcher's view
  of a model is taken as given: the results of its four \<^verbatim>\<open>isinstance\<close> tests, the text
  \<^verbatim>\<open>f'{model}'\<close> and the attribute \<^verbatim>\<open>model.model.megatron_lm_compatible\<close>.
\<close>

record model_instance =
  is_neva :: bool
  is_prompt_learning :: bool
  is_gpt :: bool
  is_retrieval :: bool
  model_repr :: string
  megatron_lm_compatible :: bool

text \<open>
  The object a successful call returns: one of the three classes of this module, or one
  of the retrieval classes that the dispatcher imports from
  \<^verbatim>\<open>retro_inference_strategies_legacy\<close>, recorded with the class name and the arguments of
  its constructor: the other keyword arguments, and the value of the entry
  \<^verbatim>\<open>megatron_lm_compatible\<close>, which the dispatcher sets itself (replacing an entry
  of that name).
\<close>

datatype 'a strategy_object =
    NevaModelTextGenerationStrategy
  | PromptLearningModelTextGenerationStrategy 'a
  | GPTModelTextGenerationStrategy
  | LegacyRetroStrategy string "string \<rightharpoonup> 'a" bool

text \<open>
  The keyword arguments \<^verbatim>\<open>**args\<close> are given as the entry \<^verbatim>\<open>'strategy'\<close> (a string,
  \<open>None\<close> when absent) and the map of the other entries. The prompt-learning constructor
  has the signature \<^verbatim>\<open>(self, model, task_ids)\<close>: any other set of keywords is a TypeError.
\<close>

definition model_inference_strategy_dispatcher ::
  "model_instance \<Rightarrow> string option \<Rightarrow> (string \<rightharpoonup> 'a) \<Rightarrow> error + 'a strategy_object" where
  "model_inference_strategy_dispatcher mdl strategy args =
     (if is_neva mdl then Inr NevaModelTextGenerationStrategy
      else if is_prompt_learning mdl then
        (case args ''task_ids'' of
           Some t \<Rightarrow> if strategy = None \<and> dom args = {''task_ids''}
                     then Inr (PromptLearningModelTextGenerationStrategy t) else Inl TypeError
         | None \<Rightarrow> Inl TypeError)
      else if is_gpt mdl then Inr GPTModelTextGenerationStrategy
      else if is_retrieval mdl then
        (case strategy of
           None \<Rightarrow> Inl (KeyError ''strategy'')
         | Some strategy_name \<Rightarrow>
             if strategy_name = ''RetroModelTextGenerationStrategy''
             then Inr (LegacyRetroStrategy ''RetroModelTextGenerationStrategy''
                         (args(''megatron_lm_compatible'' := None)) (megatron_lm_compatible mdl))
             else if strategy_name = ''RetroQAModelTextGenerationStrategy''
             then Inr (LegacyRetroStrategy ''RetroQAModelTextGenerationStrategy''
                         (args(''megatron_lm_compatible'' := None)) (megatron_lm_compatible mdl))
             else if strategy_name = ''RetroFileQAModelTextGenerationStrategy''
             then Inr (LegacyRetroStrategy ''RetroFileQAModelTextGenerationStrategy''
                         (args(''megatron_lm_compatible'' := None)) (megatron_lm_compatible mdl))
             else Inl (ValueError (strategy_name @ '' is not supported for inference'')))
      else Inl (ValueError (model_repr mdl @ '' is not supported for inference'')))"

section \<open>Example inputs\<close>

text \<open>
  A small tokenizer: \<open>Done\<close> is one token (42) after the prefix \<open><extra_id_1>\<close> (7), every
  other text is encoded character by character.
\<close>

definition example_tokenizer :: tokenizer where
  "example_tokenizer =
     \<lparr>tok_ident = 1,
      text_to_ids = (\<lambda>s. if s = ''<extra_id_1>'' then [7]
                         else if s = ''<extra_id_1>Done'' then [7, 42]
                         else map (\<lambda>c. int (of_char c)) s),
      ids_to_text = (\<lambda>ids. if ids = [5, 6] then ''xSTOP'' else ''abc''),
      tokenize = map (\<lambda>c. int (of_char c)),
      bos_id = 1, eos_id = 0, unk_id = 3\<rparr>"

definition example_model :: model where
  "example_model =
     \<lparr>model_cfg = \<lparr>encoder_seq_length = 2048, hidden_size = 16, position_embedding_type = None\<rparr>,
      frozen_model_cfg =
        \<lparr>encoder_seq_length = 1024, hidden_size = 32, position_embedding_type = None\<rparr>,
      model_tokenizer = example_tokenizer,
      pseudo_token_ids_start = Some 50000\<rparr>"

definition example_tokens :: tensor2 where
  "example_tokens = \<lparr>ncols = 4, rows = [[11, 12, 13, 0], [21, 22, 0, 0]]\<rparr>"

definition example_strategy :: "(bool, nat) strategy" where
  "example_strategy =
     \<lparr>position_ids = \<lparr>ncols = 4, rows = [[0, 1, 2, 3], [0, 1, 2, 3]]\<rparr>,
      attention_mask = Some [True],
      task_ids = Ext 70,
      neighbor_attention_mask = PyNone,
      neighbor_position_ids = Ext 80\<rparr>"

definition empty_state :: gen_state where
  "empty_state = \<lparr>end_of_generation_cache = None, tokenizer_calls = [], warnings = []\<rparr>"

text \<open>A loop state on a fresh cache, and the state after resolving \<open>Done\<close> and \<open>STOP\<close>.\<close>

definition example_resolve_state :: resolve_state where
  "example_resolve_state =
     \<lparr>rs_cache = fresh_cache example_tokenizer 0, rs_calls = [], rs_warnings = [],
      end_tokens = {0}, end_strings_to_check = []\<rparr>"

definition cached_state :: gen_state where
  "cached_state =
     \<lparr>end_of_generation_cache =
        Some \<lparr>cache_tokenizer = 1,
              end_string_to_token = [END_OF_SEQ \<mapsto> 0, ''Done'' \<mapsto> 42],
              cache_end_strings_to_check = {''STOP''}\<rparr>,
      tokenizer_calls =
        [TextToIds ''<extra_id_1>'', TextToIds ''<extra_id_1>Done'',
         TextToIds ''<extra_id_1>'', TextToIds ''<extra_id_1>STOP''],
      warnings = [NoSpecialToken ''STOP'']\<rparr>"


section \<open>Properties of clip\_max\_len\<close>

text \<open>
  C10. For every integer \<open>maxlen\<close> and every strategy, \<open>clip_max_len\<close> never returns
  more than \<open>maxlen\<close>. The GPT and retrieval strategies return
  \<open>min maxlen (encoder_seq_length + 1)\<close> when the position embedding type is
  \<open>learned_absolute\<close> (also when the key is unset) and \<open>maxlen\<close> itself for any other
  type; the Neva strategy always returns \<open>min maxlen (encoder_seq_length + 1)\<close>, and so
  does the prompt-learning strategy, with \<open>encoder_seq_length\<close> read from the frozen
  model's configuration.
\<close>

theorem clip_max_len_spec:
  "clip_max_len v m maxlen \<le> maxlen
   \<and> clip_max_len GPT m maxlen =
       (if position_embedding_type (model_cfg m) = None
           \<or> position_embedding_type (model_cfg m) = Some ''learned_absolute''
        then min maxlen (encoder_seq_length (model_cfg m) + 1) else maxlen)
   \<and> clip_max_len Retro m maxlen =
       (if position_embedding_type (model_cfg m) = None
           \<or> position_embedding_type (model_cfg m) = Some ''learned_absolute''
        then min maxlen (encoder_seq_length (model_cfg m) + 1) else maxlen)
   \<and> clip_max_len Neva m maxlen = min maxlen (encoder_seq_length (model_cfg m) + 1)
   \<and> clip_max_len PromptLearning m maxlen =
       min maxlen (encoder_seq_length (frozen_model_cfg m) + 1)"
proof -
  have bound: "clip_max_len v m maxlen \<le> maxlen"
    by (cases v)
       (simp_all add: gpt_clip_max_len_def neva_clip_max_len_def prompt_clip_max_len_def
          retro_clip_max_len_def)
  have gpt: "clip_max_len GPT m maxlen =
       (if position_embedding_type (model_cfg m) = None
           \<or> position_embedding_type (model_cfg m) = Some ''learned_absolute''
        then min maxlen (encoder_seq_length (model_cfg m) + 1) else maxlen)"
    by (cases "position_embedding_type (model_cfg m)")
       (simp_all add: gpt_clip_max_len_def get_position_embedding_type_def min_def)
  have retro: "clip_max_len Retro m maxlen =
       (if position_embedding_type (model_cfg m) = None
           \<or> position_embedding_type (model_cfg m) = Some ''learned_absolute''
        then min maxlen (encoder_seq_length (model_cfg m) + 1) else maxlen)"
    by (cases "position_embedding_type (model_cfg m)")
       (simp_all add: retro_clip_max_len_def get_position_embedding_type_def min_def)
  have neva: "clip_max_len Neva m maxlen = min maxlen (encoder_seq_length (model_cfg m) + 1)"
    by (simp add: neva_clip_max_len_def min_def)
  have prompt: "clip_max_len PromptLearning m maxlen =
       min maxlen (encoder_seq_length (frozen_model_cfg m) + 1)"
    by (simp add: prompt_clip_max_len_def min_def)
  from bound gpt retro neva prompt show ?thesis by blast
qed

section \<open>Properties of prepare\_batch\_at\_step\<close>

lemma slice_cols_nonneg:
  "0 \<le> c \<Longrightarrow> slice_cols t c =
     \<lparr>ncols = min (nat c) (ncols t), rows = map (take (min (nat c) (ncols t))) (rows t)\<rparr>"
  by (simp add: slice_cols_def py_bound_def)

lemma select_col_in_range:
  "0 \<le> j \<Longrightarrow> j < int (ncols t) \<Longrightarrow> select_col t j = Inr (map (\<lambda>r. r ! nat j) (rows t))"
  by (simp add: select_col_def Let_def)

lemma chunks_of_one: "map (\<lambda>i. take (Suc 0) (drop i xs)) [0..<length xs] = map (\<lambda>x. [x]) xs"
proof (rule nth_equalityI)
  show "length (map (\<lambda>i. take (Suc 0) (drop i xs)) [0..<length xs]) = length (map (\<lambda>x. [x]) xs)"
    by simp
next
  fix i assume "i < length (map (\<lambda>i. take (Suc 0) (drop i xs)) [0..<length xs])"
  then have i: "i < length xs" by simp
  then have "take (Suc 0) (drop i xs) = [xs ! i]"
    by (metis Cons_nth_drop_Suc take0 take_Suc_Cons)
  with i show "map (\<lambda>i. take (Suc 0) (drop i xs)) [0..<length xs] ! i = map (\<lambda>x. [x]) xs ! i"
    by simp
qed

lemma view_rows_column:
  assumes "0 < m" "length xs = nat m"
  shows "view_rows xs m = Inr \<lparr>ncols = 1, rows = map (\<lambda>x. [x]) xs\<rparr>"
proof -
  from assms have n: "int (length xs) = m" by simp
  have "length xs div nat m = 1" using assms by simp
  moreover have "int (length xs) mod m = 0" using n by simp
  ultimately show ?thesis
    using assms chunks_of_one [of xs] by (simp add: view_rows_def Let_def)
qed

lemma select_step_inputs_prefill:
  "select_step_inputs tokens pos mbs 0 c = Inr (True, slice_cols tokens c, slice_cols pos c)"
  by (simp add: select_step_inputs_def)

lemma select_step_inputs_decode:
  assumes "step \<noteq> 0" "0 < c" "c \<le> int (ncols tokens)" "c \<le> int (ncols pos)"
    "0 < mbs" "length (rows tokens) = nat mbs" "length (rows pos) = nat mbs"
  shows "select_step_inputs tokens pos mbs step c =
     Inr (False, \<lparr>ncols = 1, rows = map (\<lambda>r. [r ! nat (c - 1)]) (rows tokens)\<rparr>,
                 \<lparr>ncols = 1, rows = map (\<lambda>r. [r ! nat (c - 1)]) (rows pos)\<rparr>)"
proof -
  have t: "select_col tokens (c - 1) = Inr (map (\<lambda>r. r ! nat (c - 1)) (rows tokens))"
    using assms by (intro select_col_in_range) auto
  have p: "select_col pos (c - 1) = Inr (map (\<lambda>r. r ! nat (c - 1)) (rows pos))"
    using assms by (intro select_col_in_range) auto
  have vt: "view_rows (map (\<lambda>r. r ! nat (c - 1)) (rows tokens)) mbs =
      Inr \<lparr>ncols = 1, rows = map (\<lambda>r. [r ! nat (c - 1)]) (rows tokens)\<rparr>"
    using assms view_rows_column [of mbs "map (\<lambda>r. r ! nat (c - 1)) (rows tokens)"]
    by (simp add: comp_def)
  have vp: "view_rows (map (\<lambda>r. r ! nat (c - 1)) (rows pos)) mbs =
      Inr \<lparr>ncols = 1, rows = map (\<lambda>r. [r ! nat (c - 1)]) (rows pos)\<rparr>"
    using assms view_rows_column [of mbs "map (\<lambda>r. r ! nat (c - 1)) (rows pos)"]
    by (simp add: comp_def)
  show ?thesis
    using assms(1) by (simp add: select_step_inputs_def t p vt vp)
qed

text \<open>
  C1. For every strategy class, \<open>prepare_batch_at_step\<close> at step 0 selects the prefix
  \<^verbatim>\<open>tokens[:, :context_length]\<close> and \<^verbatim>\<open>position_ids[:, :context_length]\<close> and sets every
  entry of the flag array \<^verbatim>\<open>set_inference_key_value_memory\<close> to true; at a step greater
  than 0 it selects the single column at index \<open>context_length - 1\<close> of the tokens and of
  the position ids, as a tensor of shape \<open>[micro_batch_size, 1]\<close>, and sets every entry of
  the flag array to false. The call succeeds when the attention mask can be repeated (it
  is not requested, or it exists and \<open>micro_batch_size\<close> is positive) and the retrieval
  class is given its neighbour tokens; at a step greater than 0 the column must exist and
  the tensors must have \<open>micro_batch_size\<close> rows.
\<close>

theorem prepare_batch_at_step_prefill_decode:
  fixes s :: "('m, 'x) strategy"
  assumes mask_ok: "cam \<longrightarrow> 0 < mbs \<and> attention_mask s \<noteq> None"
      and extra_ok: "v = Retro \<longrightarrow> extra ''neighbors_tokens'' \<noteq> None"
  shows
    "(\<exists>batch shape.
        prepare_batch_at_step v s m tokens maxlen mbs 0 c cam media extra = Inr (batch, shape)
        \<and> batch ! 0 = Tensor2 (slice_cols tokens c)
        \<and> batch ! 2 = Tensor2 (slice_cols (position_ids s) c)
        \<and> batch ! setkey_index v = BoolT (replicate (nat mbs) True))
     \<and> (0 \<le> c \<longrightarrow> slice_cols tokens c =
           \<lparr>ncols = min (nat c) (ncols tokens),
            rows = map (take (min (nat c) (ncols tokens))) (rows tokens)\<rparr>)
     \<and> (0 < step \<and> 0 < c \<and> c \<le> int (ncols tokens) \<and> c \<le> int (ncols (position_ids s))
          \<and> 0 < mbs \<and> length (rows tokens) = nat mbs \<and> length (rows (position_ids s)) = nat mbs
        \<longrightarrow> (\<exists>batch shape.
              prepare_batch_at_step v s m tokens maxlen mbs step c cam media extra
                = Inr (batch, shape)
              \<and> batch ! 0 = Tensor2 \<lparr>ncols = 1, rows = map (\<lambda>r. [r ! nat (c - 1)]) (rows tokens)\<rparr>
              \<and> batch ! 2 =
                  Tensor2 \<lparr>ncols = 1, rows = map (\<lambda>r. [r ! nat (c - 1)]) (rows (position_ids s))\<rparr>
              \<and> batch ! setkey_index v = BoolT (replicate (nat mbs) False)))"
proof -
  obtain a :: "('m, 'x) item" where a: "repeat_attention_mask (attention_mask s) mbs cam = Inr a"
    using mask_ok by (cases cam) (auto simp: repeat_attention_mask_def)
  have general: "\<exists>batch shape.
        prepare_batch_at_step v s m tokens maxlen mbs st c cam media extra = Inr (batch, shape)
        \<and> batch ! 0 = Tensor2 t \<and> batch ! 2 = Tensor2 p
        \<and> batch ! setkey_index v = BoolT (replicate (nat mbs) flag)"
    if sel: "select_step_inputs tokens (position_ids s) mbs st c = Inr (flag, t, p)"
    for st flag t p
  proof (cases v)
    case GPT
    then show ?thesis using sel a by (simp add: gpt_prepare_batch_at_step_def)
  next
    case Neva
    then show ?thesis using sel a by (simp add: neva_prepare_batch_at_step_def)
  next
    case PromptLearning
    then show ?thesis using sel a by (simp add: prompt_prepare_batch_at_step_def)
  next
    case Retro
    with extra_ok obtain nt where "extra ''neighbors_tokens'' = Some nt" by auto
    with Retro show ?thesis using sel a by (simp add: retro_prepare_batch_at_step_def)
  qed
  have prefill: "\<exists>batch shape.
        prepare_batch_at_step v s m tokens maxlen mbs 0 c cam media extra = Inr (batch, shape)
        \<and> batch ! 0 = Tensor2 (slice_cols tokens c)
        \<and> batch ! 2 = Tensor2 (slice_cols (position_ids s) c)
        \<and> batch ! setkey_index v = BoolT (replicate (nat mbs) True)"
    by (rule general) (rule select_step_inputs_prefill)
  have decode: "\<exists>batch shape.
              prepare_batch_at_step v s m tokens maxlen mbs step c cam media extra
                = Inr (batch, shape)
              \<and> batch ! 0 = Tensor2 \<lparr>ncols = 1, rows = map (\<lambda>r. [r ! nat (c - 1)]) (rows tokens)\<rparr>
              \<and> batch ! 2 =
                  Tensor2 \<lparr>ncols = 1, rows = map (\<lambda>r. [r ! nat (c - 1)]) (rows (position_ids s))\<rparr>
              \<and> batch ! setkey_index v = BoolT (replicate (nat mbs) False)"
    if "0 < step" "0 < c" "c \<le> int (ncols tokens)" "c \<le> int (ncols (position_ids s))"
       "0 < mbs" "length (rows tokens) = nat mbs" "length (rows (position_ids s)) = nat mbs"
    using that by (intro general select_step_inputs_decode) auto
  from prefill decode slice_cols_nonneg [of c tokens] show ?thesis by blast
qed

theorem prepare_batch_at_step_prefill_decode_witness:
  "prepare_batch_at_step Retro example_strategy example_model example_tokens 8 2 0 3 True PyNone
       [''neighbors_tokens'' \<mapsto> Ext 60]
     = Inr ([Tensor2 \<lparr>ncols = 3, rows = [[11, 12, 13], [21, 22, 0]]\<rparr>, MaskT [True, True],
             Tensor2 \<lparr>ncols = 3, rows = [[0, 1, 2], [0, 1, 2]]\<rparr>, Ext 60, PyNone, Ext 80,
             BoolT [True, True], IntT [8, 8]], [3, 2, 16])
   \<and> prepare_batch_at_step Retro example_strategy example_model example_tokens 8 2 1 3 True PyNone
       [''neighbors_tokens'' \<mapsto> Ext 60]
     = Inr ([Tensor2 \<lparr>ncols = 1, rows = [[13], [0]]\<rparr>, MaskT [True, True],
             Tensor2 \<lparr>ncols = 1, rows = [[2], [2]]\<rparr>, Ext 60, PyNone, Ext 80,
             BoolT [False, False], IntT [8, 8]], [1, 2, 16])"
proof -
  note t = prepare_batch_at_step_prefill_decode
    [where cam = True and mbs = 2 and s = example_strategy and v = Retro
       and extra = "[''neighbors_tokens'' \<mapsto> Ext 60]" and m = example_model
       and tokens = example_tokens and maxlen = 8 and c = 3 and media = PyNone and step = 1]
  have h1: "True \<longrightarrow> (0::int) < 2 \<and> attention_mask example_strategy \<noteq> None"
    by (simp add: example_strategy_def)
  have h2: "Retro = Retro \<longrightarrow>
      [''neighbors_tokens'' \<mapsto> Ext (60::nat)] ''neighbors_tokens''
        \<noteq> (None :: (bool, nat) item option)"
    by simp
  have pre: "(0::int) < 1 \<and> (0::int) < 3 \<and> 3 \<le> int (ncols example_tokens)
      \<and> 3 \<le> int (ncols (position_ids example_strategy)) \<and> (0::int) < 2
      \<and> length (rows example_tokens) = nat 2
      \<and> length (rows (position_ids example_strategy)) = nat 2"
    by (simp add: example_tokens_def example_strategy_def)
  from t [OF h1 h2] pre show ?thesis
    by (simp add: example_tokens_def example_strategy_def example_model_def
        retro_prepare_batch_at_step_def select_step_inputs_def repeat_attention_mask_def
        slice_cols_def py_bound_def select_col_def view_rows_def Let_def eval_nat_numeral)
qed

text \<open>
  C8, as stated, fails: the extra inputs are not appended to the list. In the batch of the
  Neva class the media tensor stands at index 3, before the flag array and the length
  array, so the batch is not the plain decoder's batch followed by the media tensor.
\<close>

theorem prepare_batch_at_step_extras_appended_counterexample:
  "prepare_batch_at_step Neva example_strategy example_model example_tokens 8 2 0 3 False (Ext 90)
       Map.empty
     = Inr ([Tensor2 \<lparr>ncols = 3, rows = [[11, 12, 13], [21, 22, 0]]\<rparr>, PyNone,
             Tensor2 \<lparr>ncols = 3, rows = [[0, 1, 2], [0, 1, 2]]\<rparr>, Ext 90,
             BoolT [True, True], IntT [8, 8]], [3, 2, 16])
   \<and> prepare_batch_at_step GPT example_strategy example_model example_tokens 8 2 0 3 False (Ext 90)
       Map.empty
     = Inr ([Tensor2 \<lparr>ncols = 3, rows = [[11, 12, 13], [21, 22, 0]]\<rparr>, PyNone,
             Tensor2 \<lparr>ncols = 3, rows = [[0, 1, 2], [0, 1, 2]]\<rparr>,
             BoolT [True, True], IntT [8, 8]], [3, 2, 16])
   \<and> [Tensor2 \<lparr>ncols = 3, rows = [[11, 12, 13], [21, 22, 0]]\<rparr>, PyNone,
       Tensor2 \<lparr>ncols = 3, rows = [[0, 1, 2], [0, 1, 2]]\<rparr>, Ext 90,
       BoolT [True, True], IntT [8, 8]]
     \<noteq> [Tensor2 \<lparr>ncols = 3, rows = [[11, 12, 13], [21, 22, 0]]\<rparr>, PyNone,
        Tensor2 \<lparr>ncols = 3, rows = [[0, 1, 2], [0, 1, 2]]\<rparr>,
        BoolT [True, True], IntT [8, 8]] @ [Ext 90 :: (bool, nat) item]"
  by (simp add: example_tokens_def example_strategy_def example_model_def
        neva_prepare_batch_at_step_def gpt_prepare_batch_at_step_def
        select_step_inputs_def repeat_attention_mask_def
        slice_cols_def py_bound_def eval_nat_numeral)

text \<open>
  C8, amended. For every step, the batch of \<open>prepare_batch_at_step\<close> is the list
  \<^verbatim>\<open>tokens2use, attention_mask_repeat, positions2use\<close>, then the extra inputs of the class
  in order (plain decoder: none; Neva: the media tensor; prompt learning: the task ids;
  retrieval: the neighbour tokens, the neighbour attention mask, the neighbour position
  ids), then the flag array and the length array; the shape descriptor is
  \<open>[sequence length of tokens2use, micro_batch_size, hidden_size]\<close>, with \<open>hidden_size\<close>
  read from the frozen model's configuration by the prompt-learning class.
\<close>

theorem prepare_batch_at_step_batch_layout:
  fixes s :: "('m, 'x) strategy"
  assumes sel: "select_step_inputs tokens (position_ids s) mbs step c = Inr (flag, t, p)"
      and am: "repeat_attention_mask (attention_mask s) mbs cam = Inr a"
      and ex: "v = Retro \<longrightarrow> extra ''neighbors_tokens'' = Some nt"
  shows "prepare_batch_at_step v s m tokens maxlen mbs step c cam media extra =
     Inr ([Tensor2 t, a, Tensor2 p]
          @ (case v of
               GPT \<Rightarrow> []
             | Neva \<Rightarrow> [media]
             | PromptLearning \<Rightarrow> [task_ids s]
             | Retro \<Rightarrow> [nt, neighbor_attention_mask s, neighbor_position_ids s])
          @ [BoolT (replicate (nat mbs) flag), IntT (replicate (nat mbs) maxlen)],
          [int (ncols t), mbs,
           hidden_size (case v of PromptLearning \<Rightarrow> frozen_model_cfg m | _ \<Rightarrow> model_cfg m)])"
proof (cases v)
  case GPT
  then show ?thesis using sel am by (simp add: gpt_prepare_batch_at_step_def)
next
  case Neva
  then show ?thesis using sel am by (simp add: neva_prepare_batch_at_step_def)
next
  case PromptLearning
  then show ?thesis using sel am by (simp add: prompt_prepare_batch_at_step_def)
next
  case Retro
  then show ?thesis using sel am ex by (simp add: retro_prepare_batch_at_step_def)
qed

theorem prepare_batch_at_step_batch_layout_witness:
  "prepare_batch_at_step PromptLearning example_strategy example_model example_tokens 8 2 1 3 True
       PyNone Map.empty
     = Inr ([Tensor2 \<lparr>ncols = 1, rows = [[13], [0]]\<rparr>, MaskT [True, True],
             Tensor2 \<lparr>ncols = 1, rows = [[2], [2]]\<rparr>, Ext 70,
             BoolT [False, False], IntT [8, 8]], [1, 2, 32])"
proof -
  have sel: "select_step_inputs example_tokens (position_ids example_strategy) 2 1 3
      = Inr (False, \<lparr>ncols = 1, rows = [[13], [0]]\<rparr>, \<lparr>ncols = 1, rows = [[2], [2]]\<rparr>)"
    by (simp add: example_tokens_def example_strategy_def select_step_inputs_def
        select_col_def view_rows_def Let_def eval_nat_numeral)
  have am: "repeat_attention_mask (attention_mask example_strategy) 2 True
      = Inr (MaskT [True, True] :: (bool, nat) item)"
    by (simp add: example_strategy_def repeat_attention_mask_def eval_nat_numeral)
  have ex: "PromptLearning = Retro \<longrightarrow>
      (Map.empty :: string \<rightharpoonup> (bool, nat) item) ''neighbors_tokens'' = Some PyNone"
    by simp
  from prepare_batch_at_step_batch_layout [OF sel am ex, of example_model 8 PyNone]
  show ?thesis
    by (simp add: example_strategy_def example_model_def eval_nat_numeral)
qed

section \<open>Properties of post\_process\<close>

text \<open>
  C9. When \<open>pseudo_token_ids_start\<close> is configured, \<open>post_process\<close> of the prompt-learning
  strategy replaces by the tokenizer's \<open>unk_id\<close> every entry of \<open>new_tokens\<close> and every
  entry of the context columns \<^verbatim>\<open>tokens[:, :context_length]\<close> that is at least
  \<open>pseudo_token_ids_start\<close>, and leaves every other entry as it is (the entries below the
  threshold, and the columns from \<open>context_length\<close> on). When it is not configured, and
  in the other strategies, \<open>post_process\<close> changes nothing.
\<close>

theorem post_process_remaps_pseudo_tokens:
  "(pseudo_token_ids_start m = Some start \<longrightarrow>
      (case post_process PromptLearning m tokens new_tokens c of
         (tokens', new_tokens') \<Rightarrow>
           length new_tokens' = length new_tokens
           \<and> (\<forall>i < length new_tokens.
                 new_tokens' ! i =
                   (if new_tokens ! i \<ge> start then unk_id (model_tokenizer m)
                    else new_tokens ! i))
           \<and> ncols tokens' = ncols tokens
           \<and> length (rows tokens') = length (rows tokens)
           \<and> (\<forall>i < length (rows tokens).
                 length (rows tokens' ! i) = length (rows tokens ! i)
                 \<and> (\<forall>j < length (rows tokens ! i).
                       rows tokens' ! i ! j =
                         (if j < py_bound c (ncols tokens) \<and> rows tokens ! i ! j \<ge> start
                          then unk_id (model_tokenizer m)
                          else rows tokens ! i ! j)))))
   \<and> (0 \<le> c \<longrightarrow> py_bound c (ncols tokens) = min (nat c) (ncols tokens))
   \<and> (pseudo_token_ids_start m = None \<longrightarrow>
        post_process PromptLearning m tokens new_tokens c = (tokens, new_tokens))
   \<and> (v \<noteq> PromptLearning \<longrightarrow> post_process v m tokens new_tokens c = (tokens, new_tokens))"
proof -
  have row: "(map f (take k r) @ drop k r) ! j = (if j < k then f (r ! j) else r ! j)"
    if "j < length r" for f :: "int \<Rightarrow> int" and k r j
    using that by (simp add: nth_append min_def)
  have other: "v \<noteq> PromptLearning \<longrightarrow> post_process v m tokens new_tokens c = (tokens, new_tokens)"
    by (cases v) (simp_all add: base_post_process_def)
  have unset: "pseudo_token_ids_start m = None \<longrightarrow>
        post_process PromptLearning m tokens new_tokens c = (tokens, new_tokens)"
    by (simp add: prompt_post_process_def)
  have configured: "pseudo_token_ids_start m = Some start \<longrightarrow>
      (case post_process PromptLearning m tokens new_tokens c of
         (tokens', new_tokens') \<Rightarrow>
           length new_tokens' = length new_tokens
           \<and> (\<forall>i < length new_tokens.
                 new_tokens' ! i =
                   (if new_tokens ! i \<ge> start then unk_id (model_tokenizer m)
                    else new_tokens ! i))
           \<and> ncols tokens' = ncols tokens
           \<and> length (rows tokens') = length (rows tokens)
           \<and> (\<forall>i < length (rows tokens).
                 length (rows tokens' ! i) = length (rows tokens ! i)
                 \<and> (\<forall>j < length (rows tokens ! i).
                       rows tokens' ! i ! j =
                         (if j < py_bound c (ncols tokens) \<and> rows tokens ! i ! j \<ge> start
                          then unk_id (model_tokenizer m)
                          else rows tokens ! i ! j))))"
    by (auto simp: prompt_post_process_def Let_def row)
  from configured unset other show ?thesis
    by (simp add: py_bound_def)
qed

theorem post_process_remaps_pseudo_tokens_witness:
  "post_process PromptLearning example_model
      \<lparr>ncols = 3, rows = [[50005, 42, 50007], [7, 50000, 49999]]\<rparr> [50005, 42] 2
     = (\<lparr>ncols = 3, rows = [[3, 42, 50007], [7, 3, 49999]]\<rparr>, [3, 42])
   \<and> post_process GPT example_model
      \<lparr>ncols = 3, rows = [[50005, 42, 50007], [7, 50000, 49999]]\<rparr> [50005, 42] 2
     = (\<lparr>ncols = 3, rows = [[50005, 42, 50007], [7, 50000, 49999]]\<rparr>, [50005, 42])"
proof -
  have h: "pseudo_token_ids_start example_model = Some 50000"
    by (simp add: example_model_def)
  have g: "GPT \<noteq> PromptLearning" by simp
  from post_process_remaps_pseudo_tokens
    [where m = example_model and start = 50000
       and tokens = "\<lparr>ncols = 3, rows = [[50005, 42, 50007], [7, 50000, 49999]]\<rparr>"
       and new_tokens = "[50005, 42]" and c = 2 and v = GPT] h g
  show ?thesis
    by (simp add: prompt_post_process_def example_model_def example_tokenizer_def
        py_bound_def Let_def eval_nat_numeral)
qed

section \<open>Properties of tokenize\_neighbors\_batch\<close>

lemma pad_neighbour_length:
  "0 \<le> r \<Longrightarrow> length (pad_neighbour tok r xs) = nat r"
  by (auto simp: pad_neighbour_def py_slice_to_def py_bound_def)

lemma tokenize_neighbors_batch_rows:
  assumes "0 \<le> retro_gpt_retrieved_length ra"
  shows "\<exists>rws. tokenize_neighbors_batch tok neighbors ra = Inr rws
           \<and> list_all (\<lambda>r. int (length r) = retro_gpt_retrieved_length ra) rws"
proof -
  define valid where "valid =
     (if reuse_top ra then py_slice_to (retro_num_neighbors ra) (map (tokenize tok) neighbors)
      else py_slice (ft_neighbours ra) (retro_num_neighbors ra + ft_neighbours ra)
             (map (tokenize tok) neighbors))"
  define padded where "padded = map (pad_neighbour tok (retro_gpt_retrieved_length ra)) valid"
  have len: "list_all (\<lambda>r. length r = nat (retro_gpt_retrieved_length ra)) padded"
    using assms by (simp add: padded_def list_all_iff pad_neighbour_length)
  then have rect: "list_all (\<lambda>r. length r = length (hd padded)) padded"
    by (cases padded) (auto simp: list_all_iff)
  have "tokenize_neighbors_batch tok neighbors ra = Inr padded"
    using rect
    by (simp add: tokenize_neighbors_batch_def Let_def long_tensor_def py_assert_def
        exception_truth_value_def padded_def valid_def)
  moreover have "list_all (\<lambda>r. int (length r) = retro_gpt_retrieved_length ra) padded"
    using len assms by (simp add: list_all_iff)
  ultimately show ?thesis by blast
qed

text \<open>
  C6. \<open>tokenize_neighbors_batch\<close> is meant to fail when fewer than
  \<open>retro_num_neighbors\<close> rows are left after padding. The check is written
  \<^verbatim>\<open>assert ValueError(...)\<close>, which asserts a true value and raises nothing: with one
  neighbour and \<open>retro_num_neighbors = 2\<close> the call returns the one padded row.
\<close>

theorem tokenize_neighbors_batch_too_few_neighbours:
  "tokenize_neighbors_batch example_tokenizer [''ab'']
      \<lparr>retro_gpt_retrieved_length = 4, retro_num_neighbors = 2, ft_neighbours = 0,
       reuse_top = True\<rparr>
     = Inr [[97, 98, 0, 0]]"
  by (simp add: tokenize_neighbors_batch_def Let_def long_tensor_def py_assert_def
      exception_truth_value_def pad_neighbour_def py_slice_to_def py_bound_def
      example_tokenizer_def eval_nat_numeral)

section \<open>Properties of the strategy dispatcher\<close>

text \<open>
  C7. \<open>model_inference_strategy_dispatcher\<close> fails with a ValueError for every model
  that is an instance of none of the four supported classes, and with a ValueError again
  for a retrieval model whose strategy name is not one of
  \<open>RetroModelTextGenerationStrategy\<close>, \<open>RetroQAModelTextGenerationStrategy\<close>,
  \<open>RetroFileQAModelTextGenerationStrategy\<close>; for a supported model it returns the
  strategy of the model's class (the first class of the chain Neva, prompt learning, GPT,
  retrieval that the model is an instance of).
\<close>

theorem model_inference_strategy_dispatcher_spec:
  "(\<not> is_neva mdl \<and> \<not> is_prompt_learning mdl \<and> \<not> is_gpt mdl \<and> \<not> is_retrieval mdl \<longrightarrow>
      model_inference_strategy_dispatcher mdl strategy args
        = Inl (ValueError (model_repr mdl @ '' is not supported for inference'')))
   \<and> (\<not> is_neva mdl \<and> \<not> is_prompt_learning mdl \<and> \<not> is_gpt mdl \<and> is_retrieval mdl
        \<and> strategy = Some name
        \<and> name \<notin> {''RetroModelTextGenerationStrategy'', ''RetroQAModelTextGenerationStrategy'',
                    ''RetroFileQAModelTextGenerationStrategy''} \<longrightarrow>
      model_inference_strategy_dispatcher mdl strategy args
        = Inl (ValueError (name @ '' is not supported for inference'')))
   \<and> (\<not> is_neva mdl \<and> \<not> is_prompt_learning mdl \<and> \<not> is_gpt mdl \<and> is_retrieval mdl
        \<and> strategy = Some name
        \<and> name \<in> {''RetroModelTextGenerationStrategy'', ''RetroQAModelTextGenerationStrategy'',
                    ''RetroFileQAModelTextGenerationStrategy''} \<longrightarrow>
      model_inference_strategy_dispatcher mdl strategy args
        = Inr (LegacyRetroStrategy name (args(''megatron_lm_compatible'' := None))
                 (megatron_lm_compatible mdl)))
   \<and> (is_neva mdl \<longrightarrow>
      model_inference_strategy_dispatcher mdl strategy args = Inr NevaModelTextGenerationStrategy)
   \<and> (\<not> is_neva mdl \<and> is_prompt_learning mdl \<and> strategy = None
        \<and> dom args = {''task_ids''} \<and> args ''task_ids'' = Some t \<longrightarrow>
      model_inference_strategy_dispatcher mdl strategy args
        = Inr (PromptLearningModelTextGenerationStrategy t))
   \<and> (\<not> is_neva mdl \<and> \<not> is_prompt_learning mdl \<and> is_gpt mdl \<longrightarrow>
      model_inference_strategy_dispatcher mdl strategy args = Inr GPTModelTextGenerationStrategy)"
  by (auto simp: model_inference_strategy_dispatcher_def)

theorem model_inference_strategy_dispatcher_spec_witness:
  "model_inference_strategy_dispatcher
      \<lparr>is_neva = False, is_prompt_learning = False, is_gpt = False, is_retrieval = False,
       model_repr = ''T5'', megatron_lm_compatible = False\<rparr> None (Map.empty :: string \<rightharpoonup> nat)
     = Inl (ValueError ''T5 is not supported for inference'')
   \<and> model_inference_strategy_dispatcher
      \<lparr>is_neva = False, is_prompt_learning = False, is_gpt = False, is_retrieval = True,
       model_repr = ''Retro'', megatron_lm_compatible = True\<rparr> (Some ''Other'')
       (Map.empty :: string \<rightharpoonup> nat)
     = Inl (ValueError ''Other is not supported for inference'')
   \<and> model_inference_strategy_dispatcher
      \<lparr>is_neva = False, is_prompt_learning = False, is_gpt = False, is_retrieval = True,
       model_repr = ''Retro'', megatron_lm_compatible = True\<rparr>
       (Some ''RetroQAModelTextGenerationStrategy'') (Map.empty :: string \<rightharpoonup> nat)
     = Inr (LegacyRetroStrategy ''RetroQAModelTextGenerationStrategy'' Map.empty True)
   \<and> model_inference_strategy_dispatcher
      \<lparr>is_neva = False, is_prompt_learning = True, is_gpt = True, is_retrieval = False,
       model_repr = ''PL'', megatron_lm_compatible = False\<rparr> None [''task_ids'' \<mapsto> (5::nat)]
     = Inr (PromptLearningModelTextGenerationStrategy 5)"
proof -
  note t = model_inference_strategy_dispatcher_spec
  have a: "model_inference_strategy_dispatcher
      \<lparr>is_neva = False, is_prompt_learning = False, is_gpt = False, is_retrieval = False,
       model_repr = ''T5'', megatron_lm_compatible = False\<rparr> None (Map.empty :: string \<rightharpoonup> nat)
     = Inl (ValueError ''T5 is not supported for inference'')"
    using t [where mdl = "\<lparr>is_neva = False, is_prompt_learning = False, is_gpt = False,
        is_retrieval = False, model_repr = ''T5'', megatron_lm_compatible = False\<rparr>"
        and strategy = None and args = "Map.empty :: string \<rightharpoonup> nat"]
    by simp
  have b: "model_inference_strategy_dispatcher
      \<lparr>is_neva = False, is_prompt_learning = False, is_gpt = False, is_retrieval = True,
       model_repr = ''Retro'', megatron_lm_compatible = True\<rparr> (Some ''Other'')
       (Map.empty :: string \<rightharpoonup> nat)
     = Inl (ValueError ''Other is not supported for inference'')"
    using t [where mdl = "\<lparr>is_neva = False, is_prompt_learning = False, is_gpt = False,
        is_retrieval = True, model_repr = ''Retro'', megatron_lm_compatible = True\<rparr>"
        and strategy = "Some ''Other''" and name = "''Other''"
        and args = "Map.empty :: string \<rightharpoonup> nat"]
    by simp
  have c: "model_inference_strategy_dispatcher
      \<lparr>is_neva = False, is_prompt_learning = False, is_gpt = False, is_retrieval = True,
       model_repr = ''Retro'', megatron_lm_compatible = True\<rparr>
       (Some ''RetroQAModelTextGenerationStrategy'') (Map.empty :: string \<rightharpoonup> nat)
     = Inr (LegacyRetroStrategy ''RetroQAModelTextGenerationStrategy'' Map.empty True)"
    using t [where mdl = "\<lparr>is_neva = False, is_prompt_learning = False, is_gpt = False,
        is_retrieval = True, model_repr = ''Retro'', megatron_lm_compatible = True\<rparr>"
        and strategy = "Some ''RetroQAModelTextGenerationStrategy''"
        and name = "''RetroQAModelTextGenerationStrategy''"
        and args = "Map.empty :: string \<rightharpoonup> nat"]
    by simp
  have d: "model_inference_strategy_dispatcher
      \<lparr>is_neva = False, is_prompt_learning = True, is_gpt = True, is_retrieval = False,
       model_repr = ''PL'', megatron_lm_compatible = False\<rparr> None [''task_ids'' \<mapsto> (5::nat)]
     = Inr (PromptLearningModelTextGenerationStrategy 5)"
    using t [where mdl = "\<lparr>is_neva = False, is_prompt_learning = True, is_gpt = True,
        is_retrieval = False, model_repr = ''PL'', megatron_lm_compatible = False\<rparr>"
        and strategy = None and args = "[''task_ids'' \<mapsto> (5::nat)]" and t = 5]
    by simp
  from a b c d show ?thesis by blast
qed

section \<open>Properties of the end of generation\<close>

lemma endswith_iff: "endswith text s \<longleftrightarrow> (\<exists>p. text = p @ s)"
proof
  assume "endswith text s"
  then have "text = take (length text - length s) text @ s"
    by (metis append_take_drop_id endswith_def)
  then show "\<exists>p. text = p @ s" ..
next
  assume "\<exists>p. text = p @ s"
  then show "endswith text s" by (auto simp: endswith_def)
qed

lemma one_extra_token_iff:
  "one_extra_token xs ys \<longleftrightarrow> (\<exists>t. ys = xs @ [t])"
proof
  assume a: "one_extra_token xs ys"
  then have "ys \<noteq> []" by (auto simp: one_extra_token_def)
  then have "ys = butlast ys @ [last ys]" by simp
  with a show "\<exists>t. ys = xs @ [t]" unfolding one_extra_token_def by metis
next
  assume "\<exists>t. ys = xs @ [t]"
  then show "one_extra_token xs ys" by (auto simp: one_extra_token_def)
qed

lemma resolve_cached_token:
  "end_string_to_token (rs_cache st) e = Some t \<Longrightarrow>
     resolve_end_string tok e st = st\<lparr>end_tokens := insert t (end_tokens st)\<rparr>"
  by (simp add: resolve_end_string_def)

lemma resolve_cached_string:
  "end_string_to_token (rs_cache st) e = None \<Longrightarrow> e \<in> cache_end_strings_to_check (rs_cache st) \<Longrightarrow>
     resolve_end_string tok e st = st\<lparr>end_strings_to_check := end_strings_to_check st @ [e]\<rparr>"
  by (simp add: resolve_end_string_def)

lemma resolve_new_token:
  assumes "end_string_to_token (rs_cache st) e = None"
    "e \<notin> cache_end_strings_to_check (rs_cache st)"
    "one_extra_token (text_to_ids tok ''<extra_id_1>'') (text_to_ids tok (''<extra_id_1>'' @ e))"
  shows "resolve_end_string tok e st =
     st\<lparr>rs_cache := (rs_cache st)\<lparr>end_string_to_token :=
          (end_string_to_token (rs_cache st))
             (e \<mapsto> last (text_to_ids tok (''<extra_id_1>'' @ e)))\<rparr>,
        rs_calls := rs_calls st
                   @ [TextToIds ''<extra_id_1>'', TextToIds (''<extra_id_1>'' @ e)],
        end_tokens := insert (last (text_to_ids tok (''<extra_id_1>'' @ e))) (end_tokens st)\<rparr>"
  unfolding resolve_end_string_def Let_def using assms by simp

lemma resolve_new_string:
  assumes "end_string_to_token (rs_cache st) e = None"
    "e \<notin> cache_end_strings_to_check (rs_cache st)"
    "\<not> one_extra_token (text_to_ids tok ''<extra_id_1>'') (text_to_ids tok (''<extra_id_1>'' @ e))"
  shows "resolve_end_string tok e st =
     st\<lparr>rs_cache := (rs_cache st)\<lparr>cache_end_strings_to_check :=
                            insert e (cache_end_strings_to_check (rs_cache st))\<rparr>,
        rs_calls := rs_calls st
                   @ [TextToIds ''<extra_id_1>'', TextToIds (''<extra_id_1>'' @ e)],
        rs_warnings := rs_warnings st @ [NoSpecialToken e],
        end_strings_to_check := end_strings_to_check st @ [e]\<rparr>"
  unfolding resolve_end_string_def Let_def using assms by simp

lemma resolve_cases:
  obtains (token) t where "end_string_to_token (rs_cache st) e = Some t"
  | (string) "end_string_to_token (rs_cache st) e = None"
      "e \<in> cache_end_strings_to_check (rs_cache st)"
  | (new_token) "end_string_to_token (rs_cache st) e = None"
      "e \<notin> cache_end_strings_to_check (rs_cache st)"
      "one_extra_token (text_to_ids tok ''<extra_id_1>'') (text_to_ids tok (''<extra_id_1>'' @ e))"
  | (new_string) "end_string_to_token (rs_cache st) e = None"
      "e \<notin> cache_end_strings_to_check (rs_cache st)"
      "\<not> one_extra_token (text_to_ids tok ''<extra_id_1>'') (text_to_ids tok (''<extra_id_1>'' @ e))"
  by (cases "end_string_to_token (rs_cache st) e") auto

lemma resolve_tokenizer:
  "cache_tokenizer (rs_cache (resolve_end_string tok e st)) = cache_tokenizer (rs_cache st)"
proof (cases rule: resolve_cases [where st = st and e = e and tok = tok])
  case (token t)
  then show ?thesis by (simp add: resolve_cached_token)
next
  case string
  then show ?thesis by (simp add: resolve_cached_string)
next
  case new_token
  then show ?thesis by (simp add: resolve_new_token)
next
  case new_string
  then show ?thesis by (simp add: resolve_new_string)
qed

lemma resolve_resolved:
  "resolved_strings (rs_cache (resolve_end_string tok e st))
     = insert e (resolved_strings (rs_cache st))"
proof (cases rule: resolve_cases [where st = st and e = e and tok = tok])
  case (token t)
  then show ?thesis by (auto simp: resolve_cached_token resolved_strings_def)
next
  case string
  then show ?thesis by (auto simp: resolve_cached_string resolved_strings_def)
next
  case new_token
  then show ?thesis by (simp add: resolve_new_token resolved_strings_def)
next
  case new_string
  then show ?thesis by (simp add: resolve_new_string resolved_strings_def)
qed

lemma resolve_known:
  assumes "e \<in> resolved_strings (rs_cache st)"
  shows "rs_cache (resolve_end_string tok e st) = rs_cache st
       \<and> rs_calls (resolve_end_string tok e st) = rs_calls st
       \<and> rs_warnings (resolve_end_string tok e st) = rs_warnings st"
proof (cases rule: resolve_cases [where st = st and e = e and tok = tok])
  case (token t)
  then show ?thesis by (simp add: resolve_cached_token)
next
  case string
  then show ?thesis by (simp add: resolve_cached_string)
next
  case new_token
  with assms show ?thesis by (auto simp: resolved_strings_def)
next
  case new_string
  with assms show ?thesis by (auto simp: resolved_strings_def)
qed

lemma resolve_unknown:
  assumes "e \<notin> resolved_strings (rs_cache st)"
  shows "rs_calls (resolve_end_string tok e st)
       = rs_calls st @ [TextToIds ''<extra_id_1>'', TextToIds (''<extra_id_1>'' @ e)]"
proof (cases rule: resolve_cases [where st = st and e = e and tok = tok])
  case (token t)
  with assms show ?thesis by (auto simp: resolved_strings_def)
next
  case string
  with assms show ?thesis by (auto simp: resolved_strings_def)
next
  case new_token
  then show ?thesis by (simp add: resolve_new_token)
next
  case new_string
  then show ?thesis by (simp add: resolve_new_string)
qed

lemma resolve_eod:
  "eod \<in> end_tokens st \<Longrightarrow> eod \<in> end_tokens (resolve_end_string tok e st)"
proof (cases rule: resolve_cases [where st = st and e = e and tok = tok])
  case (token t)
  then show "eod \<in> end_tokens st \<Longrightarrow> ?thesis" by (simp add: resolve_cached_token)
next
  case string
  then show "eod \<in> end_tokens st \<Longrightarrow> ?thesis" by (simp add: resolve_cached_string)
next
  case new_token
  then show "eod \<in> end_tokens st \<Longrightarrow> ?thesis" by (simp add: resolve_new_token)
next
  case new_string
  then show "eod \<in> end_tokens st \<Longrightarrow> ?thesis" by (simp add: resolve_new_string)
qed

lemma fold_resolve_eod:
  "eod \<in> end_tokens st \<Longrightarrow> eod \<in> end_tokens (fold (resolve_end_string tok) es st)"
  by (induction es arbitrary: st) (simp_all add: resolve_eod)

lemma fold_resolve_tokenizer:
  "cache_tokenizer (rs_cache (fold (resolve_end_string tok) es st)) = cache_tokenizer (rs_cache st)"
  by (induction es arbitrary: st) (simp_all add: resolve_tokenizer)

lemma fold_resolve_resolved:
  "resolved_strings (rs_cache (fold (resolve_end_string tok) es st))
     = set es \<union> resolved_strings (rs_cache st)"
  by (induction es arbitrary: st) (simp_all add: resolve_resolved)

lemma fold_resolve_known:
  "set es \<subseteq> resolved_strings (rs_cache st) \<Longrightarrow>
     rs_cache (fold (resolve_end_string tok) es st) = rs_cache st
     \<and> rs_calls (fold (resolve_end_string tok) es st) = rs_calls st
     \<and> rs_warnings (fold (resolve_end_string tok) es st) = rs_warnings st"
proof (induction es arbitrary: st)
  case Nil
  then show ?case by simp
next
  case (Cons e es)
  then have e: "e \<in> resolved_strings (rs_cache st)" by simp
  note k = resolve_known [OF e, of tok]
  from Cons.prems k have "set es \<subseteq> resolved_strings (rs_cache (resolve_end_string tok e st))"
    by simp
  from Cons.IH [OF this] k show ?case by simp
qed

lemma fold_resolve_call_count:
  "length (rs_calls (fold (resolve_end_string tok) es st))
     = length (rs_calls st) + 2 * card (set es - resolved_strings (rs_cache st))"
proof (induction es arbitrary: st)
  case Nil
  then show ?case by simp
next
  case (Cons e es)
  let ?st1 = "resolve_end_string tok e st"
  let ?R = "resolved_strings (rs_cache st)"
  have ih: "length (rs_calls (fold (resolve_end_string tok) es ?st1))
     = length (rs_calls ?st1) + 2 * card (set es - insert e ?R)"
    using Cons.IH [of ?st1] by (simp add: resolve_resolved)
  have step: "fold (resolve_end_string tok) (e # es) st = fold (resolve_end_string tok) es ?st1"
    by simp
  show ?case
  proof (cases "e \<in> ?R")
    case True
    have "set (e # es) - ?R = set es - insert e ?R"
      using True by (simp add: insert_absorb)
    then have cd: "card (set es - insert e ?R) = card (set (e # es) - ?R)"
      by (rule arg_cong [where f = card, symmetric])
    have calls: "rs_calls ?st1 = rs_calls st"
      using resolve_known [OF True, of tok] by blast
    show ?thesis
      by (simp only: step ih calls cd)
  next
    case False
    have "set (e # es) - ?R = insert e (set es - insert e ?R)"
      using False by auto
    then have "card (set (e # es) - ?R) = card (insert e (set es - insert e ?R))"
      by (rule arg_cong)
    also have "\<dots> = Suc (card (set es - insert e ?R))"
      by (rule card_insert_disjoint) simp_all
    finally have cd: "card (set (e # es) - ?R) = Suc (card (set es - insert e ?R))" .
    have calls: "length (rs_calls ?st1) = length (rs_calls st) + 2"
      by (simp add: resolve_unknown [OF False, of tok])
    show ?thesis
      by (simp only: step ih calls cd) simp
  qed
qed

lemma get_with_valid_cache:
  assumes "end_of_generation_cache st = Some c" "cache_tokenizer c = tok_ident tok"
  shows "get_end_of_generation_tokens_and_strings tok st eod es =
     (let final = fold (resolve_end_string tok) es
                    \<lparr>rs_cache = c, rs_calls = tokenizer_calls st,
                     rs_warnings = warnings st, end_tokens = {eod},
                     end_strings_to_check = []\<rparr>
      in ((end_tokens final, end_strings_to_check final),
          \<lparr>end_of_generation_cache = Some (rs_cache final),
           tokenizer_calls = rs_calls final,
           warnings = rs_warnings final\<rparr>))"
  using assms by (simp add: get_end_of_generation_tokens_and_strings_def)

lemma get_with_invalid_cache:
  assumes "end_of_generation_cache st = None
     \<or> (\<exists>c. end_of_generation_cache st = Some c \<and> cache_tokenizer c \<noteq> tok_ident tok)"
  shows "get_end_of_generation_tokens_and_strings tok st eod es =
     (let final = fold (resolve_end_string tok) es
                    \<lparr>rs_cache = fresh_cache tok eod, rs_calls = tokenizer_calls st,
                     rs_warnings = warnings st, end_tokens = {eod},
                     end_strings_to_check = []\<rparr>
      in ((end_tokens final, end_strings_to_check final),
          \<lparr>end_of_generation_cache = Some (rs_cache final),
           tokenizer_calls = rs_calls final,
           warnings = rs_warnings final\<rparr>))"
  using assms by (auto simp: get_end_of_generation_tokens_and_strings_def)

lemma get_result_cache:
  "\<exists>c'. end_of_generation_cache (snd (get_end_of_generation_tokens_and_strings tok st eod es))
          = Some c'
       \<and> cache_tokenizer c' = tok_ident tok \<and> set es \<subseteq> resolved_strings c'"
proof (cases "end_of_generation_cache st = None
     \<or> (\<exists>c. end_of_generation_cache st = Some c \<and> cache_tokenizer c \<noteq> tok_ident tok)")
  case True
  show ?thesis
    by (simp add: get_with_invalid_cache [OF True] Let_def fold_resolve_tokenizer
        fold_resolve_resolved fresh_cache_def)
next
  case False
  then obtain c where c: "end_of_generation_cache st = Some c" "cache_tokenizer c = tok_ident tok"
    by auto
  show ?thesis
    by (simp add: get_with_valid_cache [OF c] Let_def fold_resolve_tokenizer
        fold_resolve_resolved c)
qed

lemma get_eod_in_tokens:
  "eod \<in> fst (fst (get_end_of_generation_tokens_and_strings tok st eod es))"
  by (simp add: get_end_of_generation_tokens_and_strings_def Let_def fold_resolve_eod)

text \<open>
  C2. With \<open>end_strings\<close> empty or equal to the one-element list \<open>[<|endoftext|>]\<close>,
  \<open>end_of_generation_condition\<close> returns the elementwise comparison of \<open>prev\<close> with
  \<open>eod_id\<close>, whatever \<open>tokens\<close> is, and leaves the state as it was: no call to the
  tokenizer, no warning, the cache untouched.
\<close>

theorem end_of_generation_condition_fast_path:
  "end_of_generation_condition tok st tokens prev eod_id []
     = Inr (map (\<lambda>p. p = eod_id) prev, st)
   \<and> end_of_generation_condition tok st tokens prev eod_id [''<|endoftext|>'']
     = Inr (map (\<lambda>p. p = eod_id) prev, st)"
  by (simp add: end_of_generation_condition_def END_OF_SEQ_def)

text \<open>
  C4. For an end string that the cache does not know, the loop of
  \<open>_get_end_of_generation_tokens_and_strings\<close> tokenizes \<open><extra_id_1>\<close> and
  \<open><extra_id_1>\<close> followed by the end string. If the second list is the first with
  exactly one more token at the end, that token is added to \<open>end_tokens\<close> and recorded
  in the cache as the token of the end string, and nothing else changes; otherwise no
  token is added, a warning is issued, and the end string is put into
  \<open>end_strings_to_check\<close>, in the result and in the cache.
\<close>

theorem resolve_end_string_uncached:
  assumes "end_string_to_token (rs_cache st) e = None"
      and "e \<notin> cache_end_strings_to_check (rs_cache st)"
  shows "rs_calls (resolve_end_string tok e st)
           = rs_calls st @ [TextToIds ''<extra_id_1>'', TextToIds (''<extra_id_1>'' @ e)]
     \<and> (if \<exists>t. text_to_ids tok (''<extra_id_1>'' @ e) = text_to_ids tok ''<extra_id_1>'' @ [t]
        then end_tokens (resolve_end_string tok e st)
               = insert (last (text_to_ids tok (''<extra_id_1>'' @ e))) (end_tokens st)
           \<and> end_string_to_token (rs_cache (resolve_end_string tok e st))
               = (end_string_to_token (rs_cache st))
                   (e \<mapsto> last (text_to_ids tok (''<extra_id_1>'' @ e)))
           \<and> cache_end_strings_to_check (rs_cache (resolve_end_string tok e st))
               = cache_end_strings_to_check (rs_cache st)
           \<and> end_strings_to_check (resolve_end_string tok e st) = end_strings_to_check st
           \<and> rs_warnings (resolve_end_string tok e st) = rs_warnings st
        else end_tokens (resolve_end_string tok e st) = end_tokens st
           \<and> end_string_to_token (rs_cache (resolve_end_string tok e st))
               = end_string_to_token (rs_cache st)
           \<and> cache_end_strings_to_check (rs_cache (resolve_end_string tok e st))
               = insert e (cache_end_strings_to_check (rs_cache st))
           \<and> end_strings_to_check (resolve_end_string tok e st) = end_strings_to_check st @ [e]
           \<and> rs_warnings (resolve_end_string tok e st)
               = rs_warnings st @ [NoSpecialToken e])"
proof (cases "one_extra_token (text_to_ids tok ''<extra_id_1>'')
                (text_to_ids tok (''<extra_id_1>'' @ e))")
  case True
  then have ex: "\<exists>t. text_to_ids tok (''<extra_id_1>'' @ e) = text_to_ids tok ''<extra_id_1>'' @ [t]"
    by (simp only: one_extra_token_iff)
  show ?thesis
    by (simp only: ex if_True resolve_new_token [OF assms True]) simp
next
  case False
  then have ex: "\<not> (\<exists>t. text_to_ids tok (''<extra_id_1>'' @ e)
                      = text_to_ids tok ''<extra_id_1>'' @ [t])"
    by (simp only: one_extra_token_iff not_False_eq_True)
  show ?thesis
    by (simp only: ex if_False resolve_new_string [OF assms False]) simp
qed

lemma check_end_strings_result:
  "idx + length rws \<le> length is_end \<Longrightarrow>
     \<exists>r. check_end_strings tok strings idx rws is_end calls
            = Inr (r, calls @ map IdsToText rws)
        \<and> length r = length is_end
        \<and> (\<forall>i < length is_end.
              r ! i = (if idx \<le> i \<and> i < idx + length rws
                       then is_end ! i
                            \<or> list_ex (endswith (ids_to_text tok (rws ! (i - idx)))) strings
                       else is_end ! i))"
proof (induction rws arbitrary: idx is_end calls)
  case Nil
  then show ?case by auto
next
  case (Cons row rest)
  let ?upd = "is_end[idx := is_end ! idx \<or> list_ex (endswith (ids_to_text tok row)) strings]"
  from Cons.prems have idx: "idx < length is_end" by simp
  from Cons.prems have "Suc idx + length rest \<le> length ?upd" by simp
  from Cons.IH [OF this, of "calls @ [IdsToText row]"]
  obtain r where r: "check_end_strings tok strings (Suc idx) rest ?upd (calls @ [IdsToText row])
            = Inr (r, (calls @ [IdsToText row]) @ map IdsToText rest)"
      "length r = length ?upd"
      "\<forall>i < length ?upd.
              r ! i = (if Suc idx \<le> i \<and> i < Suc idx + length rest
                       then ?upd ! i
                            \<or> list_ex (endswith (ids_to_text tok (rest ! (i - Suc idx)))) strings
                       else ?upd ! i)"
    by blast
  have run: "check_end_strings tok strings idx (row # rest) is_end calls
      = Inr (r, calls @ map IdsToText (row # rest))"
    using idx r(1) by (simp add: Let_def)
  have len: "length r = length is_end" using r(2) by simp
  have nth: "r ! i = (if idx \<le> i \<and> i < idx + length (row # rest)
                       then is_end ! i
                            \<or> list_ex (endswith (ids_to_text tok ((row # rest) ! (i - idx)))) strings
                       else is_end ! i)" if i: "i < length is_end" for i
  proof (cases "i = idx")
    case True
    with r(3) i show ?thesis by simp
  next
    case False
    then have "(row # rest) ! (i - idx) = rest ! (i - Suc idx)" if "idx \<le> i"
      using that by (simp add: nth_Cons')
    with False r(3) i show ?thesis by (auto simp: nth_list_update)
  qed
  from run len nth show ?case by blast
qed

lemma check_end_strings_all_rows:
  assumes "length rws = length is_end"
  shows "check_end_strings tok strings 0 rws is_end calls
     = Inr (map2 (\<lambda>b row. b \<or> list_ex (endswith (ids_to_text tok row)) strings) is_end rws,
            calls @ map IdsToText rws)"
proof -
  from assms have "0 + length rws \<le> length is_end" by simp
  from check_end_strings_result [OF this, of tok strings calls]
  obtain r where r: "check_end_strings tok strings 0 rws is_end calls
            = Inr (r, calls @ map IdsToText rws)"
      "length r = length is_end"
      "\<forall>i < length is_end.
              r ! i = (if 0 \<le> i \<and> i < 0 + length rws
                       then is_end ! i
                            \<or> list_ex (endswith (ids_to_text tok (rws ! (i - 0)))) strings
                       else is_end ! i)"
    by blast
  have "r = map2 (\<lambda>b row. b \<or> list_ex (endswith (ids_to_text tok row)) strings) is_end rws"
  proof (rule nth_equalityI)
    show "length r
        = length (map2 (\<lambda>b row. b \<or> list_ex (endswith (ids_to_text tok row)) strings) is_end rws)"
      using r(2) assms by simp
  next
    fix i assume "i < length r"
    with r(2) assms have i: "i < length is_end" "i < length rws" by simp_all
    with r(3) show "r ! i
        = map2 (\<lambda>b row. b \<or> list_ex (endswith (ids_to_text tok row)) strings) is_end rws ! i"
      by simp
  qed
  with r(1) show ?thesis by simp
qed

lemma map2_map_left: "map2 f (map g xs) ys = map2 (\<lambda>x y. f (g x) y) xs ys"
  by (induction xs arbitrary: ys) (auto simp: zip_Cons1 split: list.splits)

lemma end_of_generation_condition_slow:
  assumes "\<not> ((length end_strings = 1 \<and> end_strings ! 0 = END_OF_SEQ) \<or> end_strings = [])"
  shows "end_of_generation_condition tok st tokens prev eod_id end_strings =
        (case get_end_of_generation_tokens_and_strings tok st eod_id end_strings of
           ((toks, strings), st') \<Rightarrow>
             if toks = {} then Inl AssertionError
             else
               (let is_end = map (\<lambda>p. p \<in> toks) prev
                in if strings \<noteq> []
                   then (case check_end_strings tok strings 0 (rows tokens) is_end
                                 (tokenizer_calls st') of
                           Inl e \<Rightarrow> Inl e
                         | Inr (is_end', calls) \<Rightarrow> Inr (is_end', st'\<lparr>tokenizer_calls := calls\<rparr>))
                   else Inr (is_end, st')))"
  unfolding end_of_generation_condition_def by (rule if_not_P [OF assms])

text \<open>
  C3. On the general path (\<open>end_strings\<close> neither empty nor \<open>[<|endoftext|>]\<close>), with
  one row of \<open>tokens\<close> for each entry of \<open>prev\<close>, \<open>end_of_generation_condition\<close>
  returns for each sequence whether its previous token is one of the resolved end tokens
  or the decoded text of its row ends with one of the end strings to check; the resolved
  end tokens always contain \<open>eod_id\<close>.
\<close>

theorem end_of_generation_condition_general_path:
  assumes general: "end_strings \<noteq> []" "end_strings \<noteq> [''<|endoftext|>'']"
      and rows_prev: "length (rows tokens) = length prev"
      and resolved: "get_end_of_generation_tokens_and_strings tok st eod_id end_strings
                       = ((toks, strings), st')"
  shows "eod_id \<in> toks
     \<and> (\<exists>st''. end_of_generation_condition tok st tokens prev eod_id end_strings
           = Inr (map2 (\<lambda>p row. p \<in> toks
                          \<or> (\<exists>s \<in> set strings. \<exists>pre. ids_to_text tok row = pre @ s))
                       prev (rows tokens), st'')
           \<and> end_of_generation_cache st'' = end_of_generation_cache st'
           \<and> warnings st'' = warnings st')"
proof -
  have eod: "eod_id \<in> toks"
    using get_eod_in_tokens [of eod_id tok st end_strings] resolved by simp
  have slow: "\<not> ((length end_strings = 1 \<and> end_strings ! 0 = END_OF_SEQ) \<or> end_strings = [])"
  proof
    assume a: "(length end_strings = 1 \<and> end_strings ! 0 = END_OF_SEQ) \<or> end_strings = []"
    with general(1) have "length end_strings = 1" "end_strings ! 0 = END_OF_SEQ" by auto
    then have "end_strings = [END_OF_SEQ]"
      by (cases end_strings) auto
    with general(2) show False by (simp add: END_OF_SEQ_def)
  qed
  have nonempty: "toks \<noteq> {}" using eod by auto
  have ex: "list_ex (endswith tx) strings \<longleftrightarrow> (\<exists>s \<in> set strings. \<exists>pre. tx = pre @ s)"
    for tx
    by (simp add: list_ex_iff endswith_iff)
  show ?thesis
  proof (cases "strings = []")
    case True
    have "map (\<lambda>p. p \<in> toks) prev
        = map2 (\<lambda>p row. p \<in> toks \<or> (\<exists>s \<in> set strings. \<exists>pre. ids_to_text tok row = pre @ s))
            prev (rows tokens)"
      using rows_prev True
      by (intro nth_equalityI) simp_all
    moreover have "end_of_generation_condition tok st tokens prev eod_id end_strings
        = Inr (map (\<lambda>p. p \<in> toks) prev, st')"
      using nonempty True resolved by (simp add: end_of_generation_condition_slow [OF slow])
    ultimately show ?thesis using eod by simp
  next
    case False
    have len: "length (rows tokens) = length (map (\<lambda>p. p \<in> toks) prev)"
      using rows_prev by simp
    note run = check_end_strings_all_rows [OF len, of tok strings "tokenizer_calls st'"]
    have "end_of_generation_condition tok st tokens prev eod_id end_strings
        = Inr (map2 (\<lambda>b row. b \<or> list_ex (endswith (ids_to_text tok row)) strings)
                 (map (\<lambda>p. p \<in> toks) prev) (rows tokens),
               st'\<lparr>tokenizer_calls := tokenizer_calls st' @ map IdsToText (rows tokens)\<rparr>)"
      using nonempty False resolved
      by (simp add: end_of_generation_condition_slow [OF slow] run)
    then show ?thesis using eod by (simp add: map2_map_left ex)
  qed
qed

text \<open>
  C5. While the cache records the active tokenizer, resolving end strings that are all
  resolved already changes nothing (no call to the tokenizer); in general the call makes
  exactly two tokenizer calls for each distinct end string not yet resolved, and the
  cache then holds the old resolutions and the new ones. After every call the cache
  records the active tokenizer and has resolved every end string of the call. When there
  is no cache, or it records another tokenizer, the call behaves as on a fresh cache, and
  the cache it leaves knows \<open><|endoftext|>\<close> and the end strings of this call only.
\<close>

theorem end_of_generation_cache_reuse:
  "(end_of_generation_cache st = Some c \<and> cache_tokenizer c = tok_ident tok
      \<and> set es \<subseteq> resolved_strings c \<longrightarrow>
        snd (get_end_of_generation_tokens_and_strings tok st eod es) = st)
   \<and> (end_of_generation_cache st = Some c \<and> cache_tokenizer c = tok_ident tok \<longrightarrow>
        length (tokenizer_calls (snd (get_end_of_generation_tokens_and_strings tok st eod es)))
          = length (tokenizer_calls st) + 2 * card (set es - resolved_strings c)
        \<and> (\<exists>c'. end_of_generation_cache
                   (snd (get_end_of_generation_tokens_and_strings tok st eod es)) = Some c'
              \<and> resolved_strings c' = set es \<union> resolved_strings c))
   \<and> (\<exists>c'. end_of_generation_cache
               (snd (get_end_of_generation_tokens_and_strings tok st eod es)) = Some c'
          \<and> cache_tokenizer c' = tok_ident tok \<and> set es \<subseteq> resolved_strings c')
   \<and> (end_of_generation_cache st = None
        \<or> (\<exists>d. end_of_generation_cache st = Some d \<and> cache_tokenizer d \<noteq> tok_ident tok) \<longrightarrow>
        get_end_of_generation_tokens_and_strings tok st eod es
          = get_end_of_generation_tokens_and_strings tok
              (st\<lparr>end_of_generation_cache := Some (fresh_cache tok eod)\<rparr>) eod es
        \<and> (\<exists>c'. end_of_generation_cache
                   (snd (get_end_of_generation_tokens_and_strings tok st eod es)) = Some c'
              \<and> resolved_strings c' = insert END_OF_SEQ (set es)))"
proof -
  let ?init = "\<lambda>c. \<lparr>rs_cache = c, rs_calls = tokenizer_calls st,
                     rs_warnings = warnings st, end_tokens = {eod},
                     end_strings_to_check = []\<rparr>"
  have same: "snd (get_end_of_generation_tokens_and_strings tok st eod es) = st"
    if c: "end_of_generation_cache st = Some c" "cache_tokenizer c = tok_ident tok"
      and es: "set es \<subseteq> resolved_strings c"
  proof -
    from es have "set es \<subseteq> resolved_strings (rs_cache (?init c))" by simp
    from fold_resolve_known [OF this, of tok]
    show ?thesis
      using c(1) by (simp add: get_with_valid_cache [OF c] Let_def)
  qed
  have count: "length (tokenizer_calls (snd (get_end_of_generation_tokens_and_strings tok st eod es)))
          = length (tokenizer_calls st) + 2 * card (set es - resolved_strings c)
        \<and> (\<exists>c'. end_of_generation_cache
                   (snd (get_end_of_generation_tokens_and_strings tok st eod es)) = Some c'
              \<and> resolved_strings c' = set es \<union> resolved_strings c)"
    if c: "end_of_generation_cache st = Some c" "cache_tokenizer c = tok_ident tok"
    using fold_resolve_call_count [of tok es "?init c"] fold_resolve_resolved [of tok es "?init c"]
    by (simp add: get_with_valid_cache [OF c] Let_def)
  have rebuilt: "get_end_of_generation_tokens_and_strings tok st eod es
          = get_end_of_generation_tokens_and_strings tok
              (st\<lparr>end_of_generation_cache := Some (fresh_cache tok eod)\<rparr>) eod es
        \<and> (\<exists>c'. end_of_generation_cache
                   (snd (get_end_of_generation_tokens_and_strings tok st eod es)) = Some c'
              \<and> resolved_strings c' = insert END_OF_SEQ (set es))"
    if inv: "end_of_generation_cache st = None
        \<or> (\<exists>d. end_of_generation_cache st = Some d \<and> cache_tokenizer d \<noteq> tok_ident tok)"
  proof -
    have f: "end_of_generation_cache (st\<lparr>end_of_generation_cache := Some (fresh_cache tok eod)\<rparr>)
          = Some (fresh_cache tok eod)"
        "cache_tokenizer (fresh_cache tok eod) = tok_ident tok"
      by (simp_all add: fresh_cache_def)
    have r: "resolved_strings (fresh_cache tok eod) = {END_OF_SEQ}"
      by (simp add: resolved_strings_def fresh_cache_def)
    show ?thesis
      using fold_resolve_resolved [of tok es "?init (fresh_cache tok eod)"]
      by (simp add: get_with_invalid_cache [OF inv] get_with_valid_cache [OF f] Let_def r)
  qed
  from same count rebuilt get_result_cache [of tok st eod es] show ?thesis by blast
qed

lemma example_resolution:
  "get_end_of_generation_tokens_and_strings example_tokenizer empty_state 0 [''Done'', ''STOP'']
     = (({42, 0}, [''STOP'']), cached_state)"
  by (simp add: get_end_of_generation_tokens_and_strings_def Let_def resolve_end_string_def
      one_extra_token_def fresh_cache_def example_tokenizer_def empty_state_def cached_state_def
      END_OF_SEQ_def)

theorem end_of_generation_condition_fast_path_witness:
  "end_of_generation_condition example_tokenizer empty_state example_tokens [0, 5] 0
       [''<|endoftext|>'']
     = Inr ([True, False], empty_state)"
  using end_of_generation_condition_fast_path
    [of example_tokenizer empty_state example_tokens "[0, 5]" 0]
  by simp

theorem end_of_generation_condition_general_path_witness:
  "end_of_generation_condition example_tokenizer empty_state
       \<lparr>ncols = 2, rows = [[5, 6], [1, 2], [3, 4]]\<rparr> [6, 42, 9] 0 [''Done'', ''STOP'']
     = Inr ([True, True, False],
            cached_state\<lparr>tokenizer_calls := tokenizer_calls cached_state
               @ [IdsToText [5, 6], IdsToText [1, 2], IdsToText [3, 4]]\<rparr>)"
proof -
  have h1: "[''Done'', ''STOP''] \<noteq> []" by simp
  have h2: "[''Done'', ''STOP''] \<noteq> [''<|endoftext|>'']" by simp
  have h3: "length (rows \<lparr>ncols = 2, rows = [[5, 6], [1, 2], [3, 4]]\<rparr>)
      = length [6, 42, 9 :: int]" by simp
  from end_of_generation_condition_general_path [OF h1 h2 h3 example_resolution]
  obtain st'' where r:
    "end_of_generation_condition example_tokenizer empty_state
       \<lparr>ncols = 2, rows = [[5, 6], [1, 2], [3, 4]]\<rparr> [6, 42, 9] 0 [''Done'', ''STOP'']
     = Inr (map2 (\<lambda>p row. p \<in> {42, 0 :: int}
               \<or> (\<exists>s \<in> set [''STOP'']. \<exists>pre. ids_to_text example_tokenizer row = pre @ s))
             [6, 42, 9 :: int] (rows \<lparr>ncols = 2, rows = [[5, 6], [1, 2], [3, 4]]\<rparr>), st'')"
    by blast
  have d: "end_of_generation_condition example_tokenizer empty_state
       \<lparr>ncols = 2, rows = [[5, 6], [1, 2], [3, 4]]\<rparr> [6, 42, 9] 0 [''Done'', ''STOP'']
     = Inr ([True, True, False],
            cached_state\<lparr>tokenizer_calls := tokenizer_calls cached_state
               @ [IdsToText [5, 6], IdsToText [1, 2], IdsToText [3, 4]]\<rparr>)"
    unfolding end_of_generation_condition_def example_resolution
    by (simp add: END_OF_SEQ_def Let_def endswith_def example_tokenizer_def eval_nat_numeral)
  from r d show ?thesis by simp
qed

theorem resolve_end_string_uncached_witness:
  "end_tokens (resolve_end_string example_tokenizer ''Done'' example_resolve_state) = {42, 0}
   \<and> end_string_to_token (rs_cache (resolve_end_string example_tokenizer ''Done''
        example_resolve_state)) ''Done'' = Some 42
   \<and> rs_warnings (resolve_end_string example_tokenizer ''Done'' example_resolve_state) = []
   \<and> end_tokens (resolve_end_string example_tokenizer ''STOP'' example_resolve_state) = {0}
   \<and> end_strings_to_check (resolve_end_string example_tokenizer ''STOP'' example_resolve_state)
       = [''STOP'']
   \<and> rs_warnings (resolve_end_string example_tokenizer ''STOP'' example_resolve_state)
       = [NoSpecialToken ''STOP'']"
proof -
  have a: "end_string_to_token (rs_cache example_resolve_state) ''Done'' = None"
      "''Done'' \<notin> cache_end_strings_to_check (rs_cache example_resolve_state)"
    by (simp_all add: example_resolve_state_def fresh_cache_def END_OF_SEQ_def)
  have b: "end_string_to_token (rs_cache example_resolve_state) ''STOP'' = None"
      "''STOP'' \<notin> cache_end_strings_to_check (rs_cache example_resolve_state)"
    by (simp_all add: example_resolve_state_def fresh_cache_def END_OF_SEQ_def)
  from resolve_end_string_uncached [OF a, of example_tokenizer]
       resolve_end_string_uncached [OF b, of example_tokenizer]
  show ?thesis
    by (simp add: example_tokenizer_def example_resolve_state_def)
qed

theorem end_of_generation_cache_reuse_witness:
  "snd (get_end_of_generation_tokens_and_strings example_tokenizer cached_state 0
          [''STOP'', ''Done'', ''<|endoftext|>'']) = cached_state
   \<and> length (tokenizer_calls (snd (get_end_of_generation_tokens_and_strings example_tokenizer
        cached_state 0 [''STOP'', ''Other'', ''Other'']))) = 6
   \<and> get_end_of_generation_tokens_and_strings example_tokenizer
        (cached_state\<lparr>tokenizer_calls := [], warnings := []\<rparr>) 0 [''Done'', ''STOP'']
       = (({42, 0}, [''STOP'']), cached_state\<lparr>tokenizer_calls := [], warnings := []\<rparr>)
   \<and> get_end_of_generation_tokens_and_strings
        (example_tokenizer\<lparr>tok_ident := 2\<rparr>)
        (cached_state\<lparr>tokenizer_calls := [], warnings := []\<rparr>) 0 [''Done'', ''STOP'']
       = (({42, 0}, [''STOP'']),
          cached_state\<lparr>end_of_generation_cache :=
             Some \<lparr>cache_tokenizer = 2,
                   end_string_to_token = [END_OF_SEQ \<mapsto> 0, ''Done'' \<mapsto> 42],
                   cache_end_strings_to_check = {''STOP''}\<rparr>\<rparr>)"
proof -
  let ?c = "\<lparr>cache_tokenizer = 1,
              end_string_to_token = [END_OF_SEQ \<mapsto> 0, ''Done'' \<mapsto> 42],
              cache_end_strings_to_check = {''STOP''}\<rparr>"
  have valid: "end_of_generation_cache cached_state = Some ?c"
      "cache_tokenizer ?c = tok_ident example_tokenizer"
    by (simp_all add: cached_state_def example_tokenizer_def)
  have sub: "set [''STOP'', ''Done'', ''<|endoftext|>''] \<subseteq> resolved_strings ?c"
    by (simp add: resolved_strings_def END_OF_SEQ_def)
  have diff: "set [''STOP'', ''Other'', ''Other''] - resolved_strings ?c = {''Other''}"
    by (auto simp: resolved_strings_def END_OF_SEQ_def)
  note t1 = end_of_generation_cache_reuse
    [where st = cached_state and c = ?c and tok = example_tokenizer and eod = 0
       and es = "[''STOP'', ''Done'', ''<|endoftext|>'']"]
  note t2 = end_of_generation_cache_reuse
    [where st = cached_state and c = ?c and tok = example_tokenizer and eod = 0
       and es = "[''STOP'', ''Other'', ''Other'']"]
  have first: "snd (get_end_of_generation_tokens_and_strings example_tokenizer cached_state 0
          [''STOP'', ''Done'', ''<|endoftext|>'']) = cached_state"
    using t1 valid sub by blast
  have "length (tokenizer_calls (snd (get_end_of_generation_tokens_and_strings example_tokenizer
        cached_state 0 [''STOP'', ''Other'', ''Other''])))
       = length (tokenizer_calls cached_state)
         + 2 * card (set [''STOP'', ''Other'', ''Other''] - resolved_strings ?c)"
    using t2 valid by blast
  then have second: "length (tokenizer_calls (snd (get_end_of_generation_tokens_and_strings
        example_tokenizer cached_state 0 [''STOP'', ''Other'', ''Other'']))) = 6"
    by (simp only: diff) (simp add: cached_state_def)
  have third: "get_end_of_generation_tokens_and_strings example_tokenizer
        (cached_state\<lparr>tokenizer_calls := [], warnings := []\<rparr>) 0 [''Done'', ''STOP'']
       = (({42, 0}, [''STOP'']), cached_state\<lparr>tokenizer_calls := [], warnings := []\<rparr>)"
    by (simp add: get_end_of_generation_tokens_and_strings_def Let_def resolve_end_string_def
      example_tokenizer_def cached_state_def END_OF_SEQ_def)
  have fourth: "get_end_of_generation_tokens_and_strings
        (example_tokenizer\<lparr>tok_ident := 2\<rparr>)
        (cached_state\<lparr>tokenizer_calls := [], warnings := []\<rparr>) 0 [''Done'', ''STOP'']
       = (({42, 0}, [''STOP'']),
          cached_state\<lparr>end_of_generation_cache :=
             Some \<lparr>cache_tokenizer = 2,
                   end_string_to_token = [END_OF_SEQ \<mapsto> 0, ''Done'' \<mapsto> 42],
                   cache_end_strings_to_check = {''STOP''}\<rparr>\<rparr>)"
    by (simp add: get_end_of_generation_tokens_and_strings_def Let_def resolve_end_string_def
      one_extra_token_def fresh_cache_def example_tokenizer_def cached_state_def END_OF_SEQ_def)
  from first second third fourth show ?thesis by blast
qed

end
